theory Spec2Isabelle
  imports Main "HOL-Library.Char_ord" "HOL-Library.List_Lexorder"
begin

section \<open>JavaScript values and strings\<close>

text \<open>
  The values a caller hands to the query builder: \<open>null\<close>, booleans, numbers (integers
  only: the claims never need fractions), strings and arrays.
\<close>

datatype jsval = VNull | VBool bool | VNum int | VStr string | VArr "jsval list"

text \<open>What a thrown JavaScript exception carries: \<open>new Error(message)\<close>, or the
  \<open>TypeError\<close> the engine raises when a property of \<open>null\<close> is read.\<close>

datatype error = Error string | TypeError

text \<open>Decimal rendering of a number inside a template literal.\<close>

definition digit_char :: "nat \<Rightarrow> char" where
  "digit_char d = char_of (48 + d)"

fun show_nat :: "nat \<Rightarrow> string" where
  "show_nat n = (if n < 10 then [digit_char n] else show_nat (n div 10) @ [digit_char (n mod 10)])"

declare show_nat.simps [simp del]

definition show_int :: "int \<Rightarrow> string" where
  "show_int i = (if i < 0 then CHR ''-'' # show_nat (nat (- i)) else show_nat (nat i))"

text \<open>\<open>Array.prototype.join(sep)\<close> on an array of strings.\<close>

fun join_with :: "string \<Rightarrow> string list \<Rightarrow> string" where
  "join_with sep [] = []"
| "join_with sep [x] = x"
| "join_with sep (x # y # ys) = x @ sep @ join_with sep (y # ys)"

text \<open>\<open>String(v)\<close>, the conversion a template literal applies. An array renders its
  elements joined by a comma, \<open>null\<close> elements as the empty string.\<close>

fun js_toString :: "jsval \<Rightarrow> string" where
  "js_toString VNull = ''null''"
| "js_toString (VBool b) = (if b then ''true'' else ''false'')"
| "js_toString (VNum n) = show_int n"
| "js_toString (VStr s) = s"
| "js_toString (VArr xs) =
     join_with '','' (map (\<lambda>x. if x = VNull then [] else js_toString x) xs)"

text \<open>A nullable string inside a template literal: \<open>null\<close> renders as the text
  \<open>null\<close>.\<close>

definition render_name :: "string option \<Rightarrow> string" where
  "render_name t = (case t of None \<Rightarrow> ''null'' | Some s \<Rightarrow> s)"

text \<open>\<open>toLowerCase\<close> and \<open>toUpperCase\<close> on the ASCII letters.\<close>

definition lower_char :: "char \<Rightarrow> char" where
  "lower_char c = (let n = (of_char c :: nat) in if 65 \<le> n \<and> n \<le> 90 then char_of (n + 32) else c)"

definition upper_char :: "char \<Rightarrow> char" where
  "upper_char c = (let n = (of_char c :: nat) in if 97 \<le> n \<and> n \<le> 122 then char_of (n - 32) else c)"

definition toLowerCase :: "string \<Rightarrow> string" where
  "toLowerCase s = map lower_char s"

definition toUpperCase :: "string \<Rightarrow> string" where
  "toUpperCase s = map upper_char s"

text \<open>\<open>v.length\<close>: reading it from \<open>null\<close> raises a TypeError, a number or a boolean
  has none (\<open>undefined\<close>, here \<open>None\<close>).\<close>

fun js_length :: "jsval \<Rightarrow> error + nat option" where
  "js_length VNull = Inl TypeError"
| "js_length (VArr xs) = Inr (Some (length xs))"
| "js_length (VStr s) = Inr (Some (length s))"
| "js_length (VBool b) = Inr None"
| "js_length (VNum n) = Inr None"

section \<open>The query builder (src/core/QueryBuilder.js)\<close>

subsection \<open>Builder state\<close>

datatype query_type = SELECT | INSERT | UPDATE | DELETE

record condition =
  cfield :: string
  coperator :: string
  cvalue :: jsval
  ctype :: string

record join_clause =
  jtype :: string
  jtable :: string
  firstField :: string
  joperator :: string
  secondField :: string

record order_item =
  ofield :: string
  direction :: string

text \<open>A payload object is its entries in \<open>Object.keys\<close> order.\<close>

type_synonym payload = "(string \<times> jsval) list"

record QueryBuilder =
  queryType :: "query_type option"
  tableName :: "string option"
  selectFields :: "string list"
  whereConditions :: "condition list"
  joinClauses :: "join_clause list"
  groupByFields :: "string list"
  havingConditions :: "condition list"
  orderByFields :: "order_item list"
  limitValue :: "int option"
  offsetValue :: "int option"
  insertData :: "payload option"
  updateData :: "payload option"
  params :: "jsval list"
  databaseType :: "string option"

record CompiledQuery =
  sql :: string
  sql_params :: "jsval list"

text \<open>\<open>reset()\<close>, which the constructor calls: the state of a fresh builder.\<close>

definition reset :: QueryBuilder where
  "reset = \<lparr> queryType = None, tableName = None, selectFields = [''*''],
     whereConditions = [], joinClauses = [], groupByFields = [], havingConditions = [],
     orderByFields = [], limitValue = None, offsetValue = None, insertData = None,
     updateData = None, params = [], databaseType = None \<rparr>"

subsection \<open>Compilation\<close>

text \<open>The numbered markers print \<open>paramCounter + i + 1\<close>. The counter is a JavaScript
  number: adding \<open>undefined\<close> to it gives \<open>NaN\<close>, modelled as \<open>None\<close>.\<close>

definition show_counter :: "nat option \<Rightarrow> string" where
  "show_counter c = (case c of None \<Rightarrow> ''NaN'' | Some n \<Rightarrow> show_nat n)"

definition counter_add :: "nat option \<Rightarrow> nat option \<Rightarrow> nat option" where
  "counter_add a b = (case a of None \<Rightarrow> None | Some x \<Rightarrow> (case b of None \<Rightarrow> None | Some y \<Rightarrow> Some (x + y)))"

text \<open>The \<open>switch (this.databaseType)\<close> that picks a marker: \<open>n\<close> is the number a
  numbered dialect prints.\<close>

definition placeholder :: "string option \<Rightarrow> nat option \<Rightarrow> string" where
  "placeholder db n =
     (if db = Some ''mysql'' then ''?''
      else if db = Some ''postgresql'' then ''$'' @ show_counter n
      else if db = Some ''snowflake'' then '':'' @ show_counter n
      else ''?'')"

text \<open>\<open>_buildInsertQuery\<close>.\<close>

definition buildInsertQuery :: "QueryBuilder \<Rightarrow> error + CompiledQuery" where
  "buildInsertQuery q =
     (case insertData q of
        None \<Rightarrow> Inl (Error ''Insert data must be specified'')
      | Some d \<Rightarrow>
          let fields = map fst d;
              vals = map snd d;
              placeholders = join_with '', ''
                (map (\<lambda>index. placeholder (databaseType q) (Some (index + 1))) [0..<length fields])
          in Inr \<lparr> sql = ''INSERT INTO '' @ render_name (tableName q) @ '' ('' @
                     join_with '', '' fields @ '') VALUES ('' @ placeholders @ '')'',
                   sql_params = vals \<rparr>)"

text \<open>\<open>_buildWhereClause\<close>: the \<open>forEach\<close> over \<open>whereConditions\<close>, carrying the text
  built so far and the local \<open>paramCounter\<close>, which starts at 0 on every call.
  \<open>Array(n)\<close> has \<open>n\<close> slots for a number \<open>n\<close> and one slot for \<open>undefined\<close>.\<close>

fun whereLoop ::
  "string option \<Rightarrow> condition list \<Rightarrow> nat \<Rightarrow> string \<times> nat option \<Rightarrow> error + string \<times> nat option" where
  "whereLoop db [] index acc = Inr acc"
| "whereLoop db (c # cs) index (whereString, paramCounter) =
     (let whereString = (if index > 0 then whereString @ '' '' @ ctype c @ '' '' else whereString) in
      if coperator c = ''IN'' \<or> coperator c = ''NOT IN'' then
        (case js_length (cvalue c) of
           Inl e \<Rightarrow> Inl e
         | Inr placeholderCount \<Rightarrow>
             let slots = (case placeholderCount of None \<Rightarrow> 1 | Some n \<Rightarrow> n);
                 placeholders = join_with '', ''
                   (map (\<lambda>i. placeholder db (counter_add (counter_add paramCounter (Some i)) (Some 1)))
                      [0..<slots])
             in whereLoop db cs (index + 1)
                  (whereString @ cfield c @ '' '' @ coperator c @ '' ('' @ placeholders @ '')'',
                   counter_add paramCounter placeholderCount))
      else if coperator c = ''IS NULL'' \<or> coperator c = ''IS NOT NULL'' then
        whereLoop db cs (index + 1) (whereString @ cfield c @ '' '' @ coperator c, paramCounter)
      else
        whereLoop db cs (index + 1)
          (whereString @ cfield c @ '' '' @ coperator c @ '' '' @
             placeholder db (counter_add paramCounter (Some 1)),
           counter_add paramCounter (Some 1)))"

definition buildWhereClause :: "QueryBuilder \<Rightarrow> error + string" where
  "buildWhereClause q =
     (case whereLoop (databaseType q) (whereConditions q) 0 ([], Some 0) of
        Inl e \<Rightarrow> Inl e
      | Inr (whereString, paramCounter) \<Rightarrow> Inr whereString)"

text \<open>\<open>_buildHavingClause\<close>: the value goes into the text through the template literal.\<close>

fun havingLoop :: "condition list \<Rightarrow> nat \<Rightarrow> string \<Rightarrow> string" where
  "havingLoop [] index havingString = havingString"
| "havingLoop (c # cs) index havingString =
     (let havingString = (if index > 0 then havingString @ '' '' @ ctype c @ '' '' else havingString)
      in havingLoop cs (index + 1)
           (havingString @ cfield c @ '' '' @ coperator c @ '' '' @ js_toString (cvalue c)))"

definition buildHavingClause :: "QueryBuilder \<Rightarrow> string" where
  "buildHavingClause q = havingLoop (havingConditions q) 0 []"

text \<open>The three builders append the WHERE clause the same way.\<close>

definition addWhere :: "QueryBuilder \<Rightarrow> string \<Rightarrow> error + string" where
  "addWhere q query =
     (if length (whereConditions q) > 0 then
        (case buildWhereClause q of
           Inl e \<Rightarrow> Inl e
         | Inr whereString \<Rightarrow> Inr (query @ '' WHERE '' @ whereString))
      else Inr query)"

text \<open>\<open>_buildSelectQuery\<close>, block by block: each block appends its text to \<open>query\<close>, or
  nothing.\<close>

definition selectFrom :: "QueryBuilder \<Rightarrow> string" where
  "selectFrom q =
     foldl (\<lambda>query j. query @ '' '' @ jtype j @ '' JOIN '' @ jtable j @ '' ON '' @
              firstField j @ '' '' @ joperator j @ '' '' @ secondField j)
       (''SELECT '' @ join_with '', '' (selectFields q) @ '' FROM '' @ render_name (tableName q))
       (joinClauses q)"

definition groupByClause :: "QueryBuilder \<Rightarrow> string" where
  "groupByClause q =
     (if length (groupByFields q) > 0 then '' GROUP BY '' @ join_with '', '' (groupByFields q) else [])"

definition havingClause :: "QueryBuilder \<Rightarrow> string" where
  "havingClause q =
     (if length (havingConditions q) > 0 then '' HAVING '' @ buildHavingClause q else [])"

definition orderByClause :: "QueryBuilder \<Rightarrow> string" where
  "orderByClause q =
     (if length (orderByFields q) > 0
      then '' ORDER BY '' @
        join_with '', '' (map (\<lambda>item. ofield item @ '' '' @ direction item) (orderByFields q))
      else [])"

definition selectBody :: "QueryBuilder \<Rightarrow> error + string" where
  "selectBody q =
     (case addWhere q (selectFrom q) of
        Inl e \<Rightarrow> Inl e
      | Inr query \<Rightarrow> Inr (query @ groupByClause q @ havingClause q @ orderByClause q))"

definition limitOffset :: "QueryBuilder \<Rightarrow> string" where
  "limitOffset q =
     (case limitValue q of
        None \<Rightarrow> []
      | Some l \<Rightarrow> '' LIMIT '' @ show_int l @
          (case offsetValue q of None \<Rightarrow> [] | Some off \<Rightarrow> '' OFFSET '' @ show_int off))"

definition buildSelectQuery :: "QueryBuilder \<Rightarrow> error + CompiledQuery" where
  "buildSelectQuery q =
     (case selectBody q of
        Inl e \<Rightarrow> Inl e
      | Inr query \<Rightarrow> Inr \<lparr> sql = query @ limitOffset q, sql_params = params q \<rparr>)"

text \<open>\<open>_buildUpdateQuery\<close>: the SET clause numbers its markers by the field's index, and
  the WHERE clause is built by the same \<open>_buildWhereClause\<close> as everywhere else.\<close>

definition buildUpdateQuery :: "QueryBuilder \<Rightarrow> error + CompiledQuery" where
  "buildUpdateQuery q =
     (case updateData q of
        None \<Rightarrow> Inl (Error ''Update data must be specified'')
      | Some d \<Rightarrow>
          let fields = map fst d;
              vals = map snd d;
              setClause = join_with '', ''
                (map (\<lambda>(field, index). field @ '' = '' @ placeholder (databaseType q) (Some (index + 1)))
                   (zip fields [0..<length fields]));
              query = ''UPDATE '' @ render_name (tableName q) @ '' SET '' @ setClause
          in case addWhere q query of
               Inl e \<Rightarrow> Inl e
             | Inr query \<Rightarrow> Inr \<lparr> sql = query, sql_params = vals @ params q \<rparr>)"

text \<open>\<open>_buildDeleteQuery\<close>.\<close>

definition buildDeleteQuery :: "QueryBuilder \<Rightarrow> error + CompiledQuery" where
  "buildDeleteQuery q =
     (case addWhere q (''DELETE FROM '' @ render_name (tableName q)) of
        Inl e \<Rightarrow> Inl e
      | Inr query \<Rightarrow> Inr \<lparr> sql = query, sql_params = params q \<rparr>)"

text \<open>\<open>toSQL\<close>. \<open>!this.databaseType\<close> holds for \<open>null\<close> and for the empty string.\<close>

definition toSQL :: "QueryBuilder \<Rightarrow> error + CompiledQuery" where
  "toSQL q =
     (if databaseType q = None \<or> databaseType q = Some [] then
        Inl (Error ''Database type must be specified using .database() method'')
      else
        (case queryType q of
           Some SELECT \<Rightarrow> buildSelectQuery q
         | Some INSERT \<Rightarrow> buildInsertQuery q
         | Some UPDATE \<Rightarrow> buildUpdateQuery q
         | Some DELETE \<Rightarrow> buildDeleteQuery q
         | None \<Rightarrow> Inl (Error ''Query type must be specified'')))"


subsection \<open>The fluent methods\<close>

text \<open>One constructor per method and argument pattern. \<open>Where2\<close> and \<open>Where3\<close> are
  \<open>where(field, x)\<close> and \<open>where(field, operator, value)\<close>; \<open>where(field)\<close> behaves as
  \<open>Where3 field ''=''  VNull\<close>; \<open>WhereObj\<close> is the object form. \<open>limit\<close> and \<open>offset\<close>
  take an integer, on which \<open>parseInt\<close> is the identity. An array-or-string argument is a
  sum (\<open>Inl\<close> the array).\<close>

datatype builder_call =
    Reset
  | Database string
  | Table string
  | Select "string list + string"
  | Insert "payload option"
  | Update "payload option"
  | Delete
  | WhereObj payload
  | Where2 string jsval
  | Where3 string string jsval
  | OrWhere2 string jsval
  | OrWhere3 string string jsval
  | WhereIn string "jsval list"
  | WhereNotIn string "jsval list"
  | WhereLike string jsval
  | WhereNull string
  | WhereNotNull string
  | Join string string string string
  | Join3 string string string
  | LeftJoin string string string string
  | LeftJoin3 string string string
  | RightJoin string string string string
  | RightJoin3 string string string
  | GroupBy "string list + string"
  | Having2 string jsval
  | Having3 string string jsval
  | OrderBy string string
  | Limit int
  | Offset int

definition pushWhere :: "QueryBuilder \<Rightarrow> string \<Rightarrow> string \<Rightarrow> jsval \<Rightarrow> string \<Rightarrow> QueryBuilder" where
  "pushWhere q f op' v t =
     q\<lparr> whereConditions := whereConditions q @ [\<lparr> cfield = f, coperator = op', cvalue = v, ctype = t \<rparr>] \<rparr>"

definition pushParams :: "QueryBuilder \<Rightarrow> jsval list \<Rightarrow> QueryBuilder" where
  "pushParams q vs = q\<lparr> params := params q @ vs \<rparr>"

definition pushJoin :: "QueryBuilder \<Rightarrow> string \<Rightarrow> string \<Rightarrow> string \<Rightarrow> string \<Rightarrow> string \<Rightarrow> QueryBuilder" where
  "pushJoin q k t a op' b =
     q\<lparr> joinClauses := joinClauses q @
         [\<lparr> jtype = k, jtable = t, firstField = a, joperator = op', secondField = b \<rparr>] \<rparr>"

text \<open>The operators \<open>where(field, x)\<close> takes \<open>x\<close> for.\<close>

definition comparison_ops :: "string list" where
  "comparison_ops = [''='', ''!='', ''>'', ''<'', ''>='', ''<='']"

fun call :: "QueryBuilder \<Rightarrow> builder_call \<Rightarrow> QueryBuilder" where
  "call q Reset = reset"
| "call q (Database type) = q\<lparr> databaseType := Some (toLowerCase type) \<rparr>"
| "call q (Table name) = q\<lparr> tableName := Some name \<rparr>"
| "call q (Select arg) =
     (case arg of
        Inl fs \<Rightarrow> q\<lparr> queryType := Some SELECT, selectFields := fs \<rparr>
      | Inr f \<Rightarrow> q\<lparr> queryType := Some SELECT, selectFields := (if f = ''*'' then [''*''] else [f]) \<rparr>)"
| "call q (Insert data) = q\<lparr> queryType := Some INSERT, insertData := data \<rparr>"
| "call q (Update data) = q\<lparr> queryType := Some UPDATE, updateData := data \<rparr>"
| "call q Delete = q\<lparr> queryType := Some DELETE \<rparr>"
| "call q (WhereObj obj) =
     foldl (\<lambda>q (key, val). pushParams (pushWhere q key ''='' val ''AND'') [val]) q obj"
| "call q (Where2 f x) =
     (case x of
        VStr s \<Rightarrow> (if s \<in> set comparison_ops
                   then pushParams (pushWhere q f s VNull ''AND'') [VNull]
                   else pushParams (pushWhere q f ''='' x ''AND'') [x])
      | _ \<Rightarrow> pushParams (pushWhere q f ''='' x ''AND'') [x])"
| "call q (Where3 f op' v) = pushParams (pushWhere q f op' v ''AND'') [v]"
| "call q (OrWhere2 f x) = pushParams (pushWhere q f ''='' x ''OR'') [x]"
| "call q (OrWhere3 f op' v) = pushParams (pushWhere q f op' v ''OR'') [v]"
| "call q (WhereIn f vs) = pushParams (pushWhere q f ''IN'' (VArr vs) ''AND'') vs"
| "call q (WhereNotIn f vs) = pushParams (pushWhere q f ''NOT IN'' (VArr vs) ''AND'') vs"
| "call q (WhereLike f pattern) = pushParams (pushWhere q f ''LIKE'' pattern ''AND'') [pattern]"
| "call q (WhereNull f) = pushWhere q f ''IS NULL'' VNull ''AND''"
| "call q (WhereNotNull f) = pushWhere q f ''IS NOT NULL'' VNull ''AND''"
| "call q (Join t a op' b) = pushJoin q ''INNER'' t a op' b"
| "call q (Join3 t a b) = pushJoin q ''INNER'' t a ''='' b"
| "call q (LeftJoin t a op' b) = pushJoin q ''LEFT'' t a op' b"
| "call q (LeftJoin3 t a b) = pushJoin q ''LEFT'' t a ''='' b"
| "call q (RightJoin t a op' b) = pushJoin q ''RIGHT'' t a op' b"
| "call q (RightJoin3 t a b) = pushJoin q ''RIGHT'' t a ''='' b"
| "call q (GroupBy arg) =
     (case arg of Inl fs \<Rightarrow> q\<lparr> groupByFields := fs \<rparr> | Inr f \<Rightarrow> q\<lparr> groupByFields := [f] \<rparr>)"
| "call q (Having2 f x) =
     pushParams (q\<lparr> havingConditions := havingConditions q @
        [\<lparr> cfield = f, coperator = ''='', cvalue = x, ctype = ''AND'' \<rparr>] \<rparr>) [x]"
| "call q (Having3 f op' v) =
     pushParams (q\<lparr> havingConditions := havingConditions q @
        [\<lparr> cfield = f, coperator = op', cvalue = v, ctype = ''AND'' \<rparr>] \<rparr>) [v]"
| "call q (OrderBy f dir) =
     q\<lparr> orderByFields := orderByFields q @ [\<lparr> ofield = f, direction = toUpperCase dir \<rparr>] \<rparr>"
| "call q (Limit n) = q\<lparr> limitValue := Some n \<rparr>"
| "call q (Offset n) = q\<lparr> offsetValue := Some n \<rparr>"

text \<open>A chain \<open>new QueryBuilder().m1(...).m2(...)...\<close>.\<close>

definition chain :: "builder_call list \<Rightarrow> QueryBuilder" where
  "chain ms = foldl call reset ms"

section \<open>The migration engine (src/core/MigrationManager.js)\<close>

subsection \<open>The ledger and the collaborators\<close>

text \<open>A row of the ledger table.\<close>

record migration_record =
  migration :: string
  batch :: int
  executed_at :: nat

text \<open>
  The engine is handed its collaborators: the \<open>orm\<close> object, the file system and the
  migration modules. An awaited call of them either rejects (the \<open>await\<close> throws) or
  resolves. The \<open>orm\<close> of index.js catches the errors of its adapters and resolves with an
  error response instead of throwing, so a resolved reply says whether the operation was
  carried out: \<open>Resolves\<close> is a reply of success, \<open>ResolvesFailure\<close> a reply of failure,
  after which the ledger is as it was. A transform either completes or throws.
\<close>

datatype orm_mode = Resolves | ResolvesFailure | Rejects string

datatype 'a reply = Rejected string | Failure | Success 'a

datatype outcome = Completes | Throws string

text \<open>What \<open>require\<close> yields for a migration file: \<open>up\<close> and \<open>down\<close>, each \<open>None\<close> when the
  module exports no such function.\<close>

record unit_module =
  up :: "outcome option"
  down :: "outcome option"

record env =
  readdir :: "string + string list"
  require :: "string \<Rightarrow> string + unit_module"
  read_mode :: orm_mode
  query_mode :: orm_mode
  create_mode :: "string \<Rightarrow> orm_mode"
  delete_mode :: "string \<Rightarrow> orm_mode"
  now :: "string \<Rightarrow> nat"

text \<open>The calls the engine makes on its collaborators, in the order it makes them.\<close>

datatype event =
    CallUp string
  | CallCreate string int
  | CallDown string
  | CallDelete string

record mstate =
  ledger :: "migration_record list"
  trace :: "event list"

text \<open>\<open>orm.read(config, migrationTable, {where: {batch}, orderBy, order})\<close>: the rows of the
  ledger, filtered and ordered by the database.\<close>

datatype read_order = MigrationAsc | MigrationDesc | BatchDescMigrationDesc

definition order_rows :: "read_order \<Rightarrow> migration_record list \<Rightarrow> migration_record list" where
  "order_rows ord rows =
     (case ord of
        MigrationAsc \<Rightarrow> sort_key migration rows
      | MigrationDesc \<Rightarrow> rev (sort_key migration rows)
      | BatchDescMigrationDesc \<Rightarrow> rev (sort_key batch (sort_key migration rows)))"

definition orm_read :: "env \<Rightarrow> mstate \<Rightarrow> int option \<Rightarrow> read_order \<Rightarrow> migration_record list reply" where
  "orm_read e st wh ord =
     (case read_mode e of
        Rejects msg \<Rightarrow> Rejected msg
      | ResolvesFailure \<Rightarrow> Failure
      | Resolves \<Rightarrow>
          Success (order_rows ord
            (case wh of None \<Rightarrow> ledger st | Some b \<Rightarrow> filter (\<lambda>r. batch r = b) (ledger st))))"

text \<open>\<open>orm.query(config, "SELECT MAX(batch) as max_batch FROM ...")\<close>: one row, whose
  \<open>max_batch\<close> is \<open>NULL\<close> on an empty table.\<close>

definition max_batch :: "migration_record list \<Rightarrow> int option" where
  "max_batch rows = (case rows of [] \<Rightarrow> None | r # rs \<Rightarrow> Some (foldl max (batch r) (map batch rs)))"

definition orm_query_max :: "env \<Rightarrow> mstate \<Rightarrow> int option reply" where
  "orm_query_max e st =
     (case query_mode e of
        Rejects msg \<Rightarrow> Rejected msg
      | ResolvesFailure \<Rightarrow> Failure
      | Resolves \<Rightarrow> Success (max_batch (ledger st)))"

text \<open>\<open>orm.create\<close> and \<open>orm.deleteRecord\<close> on the ledger.\<close>

definition orm_create :: "env \<Rightarrow> mstate \<Rightarrow> string \<Rightarrow> int \<Rightarrow> (string + unit) \<times> mstate" where
  "orm_create e st filename b =
     (let st = st\<lparr> trace := trace st @ [CallCreate filename b] \<rparr> in
      case create_mode e filename of
        Rejects msg \<Rightarrow> (Inl msg, st)
      | ResolvesFailure \<Rightarrow> (Inr (), st)
      | Resolves \<Rightarrow>
          (Inr (), st\<lparr> ledger := ledger st @
             [\<lparr> migration = filename, batch = b, executed_at = now e filename \<rparr>] \<rparr>))"

definition orm_deleteRecord :: "env \<Rightarrow> mstate \<Rightarrow> string \<Rightarrow> (string + unit) \<times> mstate" where
  "orm_deleteRecord e st filename =
     (let st = st\<lparr> trace := trace st @ [CallDelete filename] \<rparr> in
      case delete_mode e filename of
        Rejects msg \<Rightarrow> (Inl msg, st)
      | ResolvesFailure \<Rightarrow> (Inr (), st)
      | Resolves \<Rightarrow> (Inr (), st\<lparr> ledger := filter (\<lambda>r. migration r \<noteq> filename) (ledger st) \<rparr>))"

subsection \<open>migrate\<close>

definition endsWith :: "string \<Rightarrow> string \<Rightarrow> bool" where
  "endsWith s suffix = (length suffix \<le> length s \<and> drop (length s - length suffix) s = suffix)"

text \<open>\<open>_getPendingMigrations\<close>. \<open>Inl\<close> is the message of a thrown error.\<close>

definition getPendingMigrations :: "env \<Rightarrow> mstate \<Rightarrow> string + string list" where
  "getPendingMigrations e st =
     (case readdir e of
        Inl msg \<Rightarrow> Inl msg
      | Inr files \<Rightarrow>
          let migrationFiles = sort (filter (\<lambda>file. endsWith file ''.js'') files) in
          (case orm_read e st None MigrationAsc of
             Rejected msg \<Rightarrow> Inl msg
           | Failure \<Rightarrow> Inr migrationFiles
           | Success rows \<Rightarrow>
               let executedMigrations = map migration rows
               in Inr (filter (\<lambda>file. file \<notin> set executedMigrations) migrationFiles)))"

text \<open>\<open>_getNextBatchNumber\<close> and \<open>_getLastBatchNumber\<close>: \<open>max_batch || MAX_BATCH || 0\<close> is 0
  for \<open>NULL\<close> and for 0.\<close>

definition or_zero :: "int option \<Rightarrow> int" where
  "or_zero m = (case m of None \<Rightarrow> 0 | Some b \<Rightarrow> (if b = 0 then 0 else b))"

definition getNextBatchNumber :: "env \<Rightarrow> mstate \<Rightarrow> string + int" where
  "getNextBatchNumber e st =
     (case orm_query_max e st of
        Rejected msg \<Rightarrow> Inl msg
      | Failure \<Rightarrow> Inr 1
      | Success m \<Rightarrow> Inr (or_zero m + 1))"

definition getLastBatchNumber :: "env \<Rightarrow> mstate \<Rightarrow> string + int" where
  "getLastBatchNumber e st =
     (case orm_query_max e st of
        Rejected msg \<Rightarrow> Inl msg
      | Failure \<Rightarrow> Inr 0
      | Success m \<Rightarrow> Inr (or_zero m))"

definition quoted :: "string \<Rightarrow> string" where
  "quoted s = [CHR 0x27] @ s @ [CHR 0x27]"

text \<open>\<open>_executeMigration\<close>: the reply \<open>orm.create\<close> resolves to is not looked at.\<close>

definition executeMigration :: "env \<Rightarrow> mstate \<Rightarrow> string \<Rightarrow> int \<Rightarrow> (string + unit) \<times> mstate" where
  "executeMigration e st filename b =
     (case require e filename of
        Inl msg \<Rightarrow> (Inl msg, st)
      | Inr m \<Rightarrow>
          (case up m of
             None \<Rightarrow> (Inl (''Migration '' @ filename @ '' must export an '' @ quoted ''up'' @ '' function''), st)
           | Some r \<Rightarrow>
               let st = st\<lparr> trace := trace st @ [CallUp filename] \<rparr> in
               (case r of
                  Throws msg \<Rightarrow> (Inl msg, st)
                | Completes \<Rightarrow> orm_create e st filename b)))"

text \<open>The \<open>for\<close> loop of \<open>migrate\<close>, which breaks at the first error: the result is
  \<open>executed\<close>, \<open>errors\<close> and the state.\<close>

fun migrateLoop ::
  "env \<Rightarrow> int \<Rightarrow> string list \<Rightarrow> string list \<Rightarrow> mstate \<Rightarrow> string list \<times> (string \<times> string) list \<times> mstate" where
  "migrateLoop e b [] executed st = (executed, [], st)"
| "migrateLoop e b (m # ms) executed st =
     (case executeMigration e st m b of
        (Inl msg, st') \<Rightarrow> (executed, [(m, msg)], st')
      | (Inr u, st') \<Rightarrow> migrateLoop e b ms (executed @ [m]) st')"

record migrate_result =
  m_success :: bool
  m_message :: "string option"
  m_executed :: "string list"
  m_batch :: "int option"
  m_errors :: "(string \<times> string) list"
  m_error :: "string option"

definition migrate :: "env \<Rightarrow> mstate \<Rightarrow> migrate_result \<times> mstate" where
  "migrate e st =
     (case getPendingMigrations e st of
        Inl msg \<Rightarrow>
          (\<lparr> m_success = False, m_message = None, m_executed = [], m_batch = None,
             m_errors = [], m_error = Some msg \<rparr>, st)
      | Inr pendingMigrations \<Rightarrow>
          if pendingMigrations = [] then
            (\<lparr> m_success = True, m_message = Some ''No pending migrations'', m_executed = [],
               m_batch = None, m_errors = [], m_error = None \<rparr>, st)
          else
            (case getNextBatchNumber e st of
               Inl msg \<Rightarrow>
                 (\<lparr> m_success = False, m_message = None, m_executed = [], m_batch = None,
                    m_errors = [], m_error = Some msg \<rparr>, st)
             | Inr currentBatch \<Rightarrow>
                 (case migrateLoop e currentBatch pendingMigrations [] st of
                    (executed, errors, st') \<Rightarrow>
                      (\<lparr> m_success = (errors = []),
                         m_message = Some (''Executed '' @ show_nat (length executed) @ '' migrations''),
                         m_executed = executed, m_batch = Some currentBatch,
                         m_errors = errors, m_error = None \<rparr>, st'))))"

subsection \<open>rollback and reset\<close>

text \<open>\<open>_rollbackMigration\<close>.\<close>

definition rollbackMigration :: "env \<Rightarrow> mstate \<Rightarrow> string \<Rightarrow> (string + unit) \<times> mstate" where
  "rollbackMigration e st filename =
     (case require e filename of
        Inl msg \<Rightarrow> (Inl msg, st)
      | Inr m \<Rightarrow>
          (case down m of
             None \<Rightarrow> (Inl (''Migration '' @ filename @ '' must export a '' @ quoted ''down'' @ '' function''), st)
           | Some r \<Rightarrow>
               let st = st\<lparr> trace := trace st @ [CallDown filename] \<rparr> in
               (case r of
                  Throws msg \<Rightarrow> (Inl msg, st)
                | Completes \<Rightarrow> orm_deleteRecord e st filename)))"

text \<open>The loop of \<open>rollback\<close> (\<open>break\<close> in the \<open>catch\<close>) and the loop of \<open>reset\<close> (no
  \<open>break\<close>: "Continue with other migrations even if one fails").\<close>

fun rollbackLoop ::
  "env \<Rightarrow> migration_record list \<Rightarrow> string list \<Rightarrow> mstate \<Rightarrow> string list \<times> (string \<times> string) list \<times> mstate" where
  "rollbackLoop e [] rolledBack st = (rolledBack, [], st)"
| "rollbackLoop e (r # rs) rolledBack st =
     (case rollbackMigration e st (migration r) of
        (Inl msg, st') \<Rightarrow> (rolledBack, [(migration r, msg)], st')
      | (Inr u, st') \<Rightarrow> rollbackLoop e rs (rolledBack @ [migration r]) st')"


record rollback_result =
  r_success :: bool
  r_message :: "string option"
  r_done :: "string list"
  r_errors :: "(string \<times> string) list"
  r_error :: "string option"

definition rollback_failed :: "string \<Rightarrow> rollback_result" where
  "rollback_failed msg =
     \<lparr> r_success = False, r_message = None, r_done = [], r_errors = [], r_error = Some msg \<rparr>"

definition rollbackRows :: "env \<Rightarrow> mstate \<Rightarrow> migration_record list reply \<Rightarrow> rollback_result \<times> mstate" where
  "rollbackRows e st result =
     (case result of
        Rejected msg \<Rightarrow> (rollback_failed msg, st)
      | _ \<Rightarrow>
          let migrationsToRollback = (case result of Success rows \<Rightarrow> rows | _ \<Rightarrow> []) in
          (case rollbackLoop e migrationsToRollback [] st of
             (rolledBack, errors, st') \<Rightarrow>
               (\<lparr> r_success = (errors = []),
                  r_message = Some (''Rolled back '' @ show_nat (length rolledBack) @ '' migrations''),
                  r_done = rolledBack, r_errors = errors, r_error = None \<rparr>, st')))"

text \<open>\<open>rollback(batch = null)\<close>.\<close>

definition rollback :: "env \<Rightarrow> mstate \<Rightarrow> int option \<Rightarrow> rollback_result \<times> mstate" where
  "rollback e st b =
     (case b of
        Some n \<Rightarrow> rollbackRows e st (orm_read e st (Some n) MigrationDesc)
      | None \<Rightarrow>
          (case getLastBatchNumber e st of
             Inl msg \<Rightarrow> (rollback_failed msg, st)
           | Inr lastBatch \<Rightarrow>
               if lastBatch = 0 then
                 (\<lparr> r_success = True, r_message = Some ''No migrations to rollback'', r_done = [],
                    r_errors = [], r_error = None \<rparr>, st)
               else rollbackRows e st (orm_read e st (Some lastBatch) MigrationDesc)))"


section \<open>The schema differ (\<open>_compareSchemas\<close>)\<close>

text \<open>An object is the list of its entries in \<open>Object.keys\<close> order; \<open>None\<close> stands for
  \<open>undefined\<close> or \<open>null\<close>. A column definition and an index definition are opaque
  (\<open>'c\<close>, \<open>'x\<close>): the differ only hands them on and serialises them.\<close>

record ('c, 'x) table_def =
  columns :: "(string \<times> 'c) list option"
  indexes :: "(string \<times> 'x) list option"

type_synonym ('c, 'x) schema = "(string \<times> ('c, 'x) table_def) list"

record ('c, 'x) differences =
  addedTables :: "string list"
  droppedTables :: "string list"
  modifiedTables :: "(string \<times> unit) list"
  addedColumns :: "(string \<times> (string \<times> 'c option) list) list"
  droppedColumns :: "(string \<times> (string \<times> 'c option) list) list"
  modifiedColumns :: "(string \<times> (string \<times> 'c option \<times> 'c option) list) list"
  addedIndexes :: "(string \<times> (string \<times> 'x option) list) list"
  droppedIndexes :: "(string \<times> (string \<times> 'x option) list) list"

text \<open>\<open>Object.keys(o || {})\<close>, \<open>o[k]\<close> and \<open>o[k] = v\<close>.\<close>

definition keys_of :: "(string \<times> 'a) list option \<Rightarrow> string list" where
  "keys_of o' = (case o' of None \<Rightarrow> [] | Some kvs \<Rightarrow> map fst kvs)"

definition obj_get :: "(string \<times> 'a) list option \<Rightarrow> string \<Rightarrow> 'a option" where
  "obj_get o' k = (case o' of None \<Rightarrow> None | Some kvs \<Rightarrow> map_of kvs k)"

fun obj_set :: "(string \<times> 'a) list \<Rightarrow> string \<Rightarrow> 'a \<Rightarrow> (string \<times> 'a) list" where
  "obj_set [] k v = [(k, v)]"
| "obj_set ((k', v') # kvs) k v = (if k' = k then (k', v) # kvs else (k', v') # obj_set kvs k v)"

text \<open>The body of the loop over the common tables. \<open>stringify\<close> is \<open>JSON.stringify\<close>.\<close>

definition compareTable ::
  "('c \<Rightarrow> string) \<Rightarrow> string \<Rightarrow> ('c, 'x) table_def \<Rightarrow> ('c, 'x) table_def \<Rightarrow>
   ('c, 'x) differences \<Rightarrow> ('c, 'x) differences" where
  "compareTable stringify t fromTable toTable d =
     (let fromColumns = keys_of (columns fromTable);
          toColumns = keys_of (columns toTable);
          added = filter (\<lambda>col. col \<notin> set fromColumns) toColumns;
          dropped = filter (\<lambda>col. col \<notin> set toColumns) fromColumns;
          d = (if length added > 0
               then d\<lparr> addedColumns := obj_set (addedColumns d) t
                         (map (\<lambda>col. (col, obj_get (columns toTable) col)) added) \<rparr>
               else d);
          d = (if length dropped > 0
               then d\<lparr> droppedColumns := obj_set (droppedColumns d) t
                         (map (\<lambda>col. (col, obj_get (columns fromTable) col)) dropped) \<rparr>
               else d);
          commonColumns = filter (\<lambda>col. col \<in> set toColumns) fromColumns;
          modified = map (\<lambda>col. (col, obj_get (columns fromTable) col, obj_get (columns toTable) col))
                       (filter (\<lambda>col. map_option stringify (obj_get (columns fromTable) col) \<noteq>
                                       map_option stringify (obj_get (columns toTable) col))
                          commonColumns);
          d = (if length modified > 0
               then d\<lparr> modifiedColumns := obj_set (modifiedColumns d) t modified \<rparr>
               else d);
          fromIndexes = keys_of (indexes fromTable);
          toIndexes = keys_of (indexes toTable);
          addedIdx = filter (\<lambda>idx. idx \<notin> set fromIndexes) toIndexes;
          droppedIdx = filter (\<lambda>idx. idx \<notin> set toIndexes) fromIndexes;
          d = (if length addedIdx > 0
               then d\<lparr> addedIndexes := obj_set (addedIndexes d) t
                         (map (\<lambda>idx. (idx, obj_get (indexes toTable) idx)) addedIdx) \<rparr>
               else d);
          d = (if length droppedIdx > 0
               then d\<lparr> droppedIndexes := obj_set (droppedIndexes d) t
                         (map (\<lambda>idx. (idx, obj_get (indexes fromTable) idx)) droppedIdx) \<rparr>
               else d)
      in d)"

text \<open>The loop itself: \<open>fromSchema[table].columns\<close> raises a TypeError when the schema has
  no such table.\<close>

fun compareLoop ::
  "('c \<Rightarrow> string) \<Rightarrow> ('c, 'x) schema option \<Rightarrow> ('c, 'x) schema option \<Rightarrow> string list \<Rightarrow>
   ('c, 'x) differences \<Rightarrow> error + ('c, 'x) differences" where
  "compareLoop stringify fromSchema toSchema [] d = Inr d"
| "compareLoop stringify fromSchema toSchema (t # ts) d =
     (case obj_get fromSchema t of
        None \<Rightarrow> Inl TypeError
      | Some fromTable \<Rightarrow>
          (case obj_get toSchema t of
             None \<Rightarrow> Inl TypeError
           | Some toTable \<Rightarrow>
               compareLoop stringify fromSchema toSchema ts (compareTable stringify t fromTable toTable d)))"

definition no_differences :: "('c, 'x) differences" where
  "no_differences = \<lparr> addedTables = [], droppedTables = [], modifiedTables = [], addedColumns = [],
     droppedColumns = [], modifiedColumns = [], addedIndexes = [], droppedIndexes = [] \<rparr>"

definition compareSchemas ::
  "('c \<Rightarrow> string) \<Rightarrow> ('c, 'x) schema option \<Rightarrow> ('c, 'x) schema option \<Rightarrow> error + ('c, 'x) differences" where
  "compareSchemas stringify fromSchema toSchema =
     (let fromTables = keys_of fromSchema;
          toTables = keys_of toSchema;
          d = no_differences\<lparr> addedTables := filter (\<lambda>t. t \<notin> set fromTables) toTables,
                               droppedTables := filter (\<lambda>t. t \<notin> set toTables) fromTables \<rparr>;
          commonTables = filter (\<lambda>t. t \<in> set toTables) fromTables
      in compareLoop stringify fromSchema toSchema commonTables d)"

section \<open>Vocabulary of the claims\<close>

text \<open>A where condition on which \<open>_buildWhereClause\<close> raises: the operator is IN or NOT IN
  and the recorded value is \<open>null\<close>, whose \<open>length\<close> cannot be read.\<close>

definition null_in_condition :: "condition \<Rightarrow> bool" where
  "null_in_condition c = ((coperator c = ''IN'' \<or> coperator c = ''NOT IN'') \<and> cvalue c = VNull)"

definition where_raises :: "QueryBuilder \<Rightarrow> bool" where
  "where_raises q = list_ex null_in_condition (whereConditions q)"

text \<open>The where-condition values as section 4.1 of the specification counts them: an
  IN or NOT IN condition contributes each element of its collection, an IS NULL or IS NOT
  NULL condition contributes nothing, every other condition contributes its value.\<close>

definition condition_values :: "condition \<Rightarrow> jsval list" where
  "condition_values c =
     (if coperator c = ''IN'' \<or> coperator c = ''NOT IN'' then
        (case cvalue c of VArr vs \<Rightarrow> vs | v \<Rightarrow> [v])
      else if coperator c = ''IS NULL'' \<or> coperator c = ''IS NOT NULL'' then []
      else [cvalue c])"

definition where_values :: "condition list \<Rightarrow> jsval list" where
  "where_values cs = concat (map condition_values cs)"

text \<open>A where condition whose IN or NOT IN operator comes with an array, as \<open>whereIn\<close> and
  \<open>whereNotIn\<close> record it.\<close>

definition array_in_condition :: "condition \<Rightarrow> bool" where
  "array_in_condition c =
     (if coperator c = ''IN'' \<or> coperator c = ''NOT IN''
      then (case cvalue c of VArr vs \<Rightarrow> True | _ \<Rightarrow> False) else True)"


text \<open>Kinds of builder call. A call is \<open>dedicated\<close> unless it is \<open>having\<close>, or a
  three-argument \<open>where\<close>/\<open>orWhere\<close> that spells IN, NOT IN, IS NULL or IS NOT NULL as its
  operator instead of going through \<open>whereIn\<close>, \<open>whereNotIn\<close>, \<open>whereNull\<close>,
  \<open>whereNotNull\<close>.\<close>

definition special_ops :: "string list" where
  "special_ops = [''IN'', ''NOT IN'', ''IS NULL'', ''IS NOT NULL'']"

fun is_limit :: "builder_call \<Rightarrow> bool" where
  "is_limit (Limit n) = True"
| "is_limit m = False"

fun is_offset :: "builder_call \<Rightarrow> bool" where
  "is_offset (Offset n) = True"
| "is_offset m = False"

fun is_reset :: "builder_call \<Rightarrow> bool" where
  "is_reset Reset = True"
| "is_reset m = False"

fun is_having :: "builder_call \<Rightarrow> bool" where
  "is_having (Having2 f x) = True"
| "is_having (Having3 f op' v) = True"
| "is_having m = False"

fun raw_special_where :: "builder_call \<Rightarrow> bool" where
  "raw_special_where (Where3 f op' v) = (op' \<in> set special_ops)"
| "raw_special_where (OrWhere3 f op' v) = (op' \<in> set special_ops)"
| "raw_special_where m = False"

definition dedicated :: "builder_call \<Rightarrow> bool" where
  "dedicated m = (\<not> is_having m \<and> \<not> raw_special_where m)"


text \<open>Whether the block "Add LIMIT and OFFSET" of \<open>_buildSelectQuery\<close> has appended a
  LIMIT clause, and whether it has appended an OFFSET clause, read off the text it
  appended.\<close>

definition startsWith :: "string \<Rightarrow> string \<Rightarrow> bool" where
  "startsWith s pre = (take (length pre) s = pre)"

definition emitsLimit :: "QueryBuilder \<Rightarrow> bool" where
  "emitsLimit q = startsWith (limitOffset q) '' LIMIT ''"

definition emitsOffset :: "QueryBuilder \<Rightarrow> bool" where
  "emitsOffset q =
     (case offsetValue q of
        None \<Rightarrow> False
      | Some off \<Rightarrow> endsWith (limitOffset q) ('' OFFSET '' @ show_int off))"

text \<open>Whether a call of \<open>_rollbackMigration\<close> on a unit raises, and the collaborator calls
  it makes; neither depends on the ledger.\<close>

definition rollback_fails :: "env \<Rightarrow> string \<Rightarrow> bool" where
  "rollback_fails e name = isl (fst (rollbackMigration e \<lparr> ledger = [], trace = [] \<rparr> name))"

definition rollback_events :: "env \<Rightarrow> string \<Rightarrow> event list" where
  "rollback_events e name = trace (snd (rollbackMigration e \<lparr> ledger = [], trace = [] \<rparr> name))"


definition rollback_candidates :: "mstate \<Rightarrow> int \<Rightarrow> string list" where
  "rollback_candidates st b =
     map migration (order_rows MigrationDesc (filter (\<lambda>r. batch r = b) (ledger st)))"

text \<open>The same for \<open>_executeMigration\<close> under batch number \<open>b\<close>.\<close>

definition apply_fails :: "env \<Rightarrow> string \<Rightarrow> bool" where
  "apply_fails e name = isl (fst (executeMigration e \<lparr> ledger = [], trace = [] \<rparr> name 0))"

definition apply_events :: "env \<Rightarrow> int \<Rightarrow> string \<Rightarrow> event list" where
  "apply_events e b name = trace (snd (executeMigration e \<lparr> ledger = [], trace = [] \<rparr> name b))"

text \<open>The pending units as section 4.2 of the specification defines them: the discovered
  identifiers (the \<open>.js\<close> files), sorted, minus the identifiers of the ledger. And the ledger
  row an application writes.\<close>

definition pending_units :: "string list \<Rightarrow> mstate \<Rightarrow> string list" where
  "pending_units files st =
     filter (\<lambda>f. f \<notin> migration ` set (ledger st)) (sort (filter (\<lambda>f. endsWith f ''.js'') files))"

definition ledger_row :: "env \<Rightarrow> int \<Rightarrow> string \<Rightarrow> migration_record" where
  "ledger_row e b name = \<lparr> migration = name, batch = b, executed_at = now e name \<rparr>"

text \<open>Concrete collaborators for the runs the theorems below are tried on: three units
  \<open>001_a.js\<close>, \<open>002_b.js\<close>, \<open>003_c.js\<close> whose transforms complete, except that the backward
  transform of \<open>002_b.js\<close> throws; an \<open>orm\<close> that carries out every call.\<close>

definition sample_env :: env where
  "sample_env =
     \<lparr> readdir = Inr [''002_b.js'', ''003_c.js'', ''001_a.js'', ''README.md''],
       require = (\<lambda>f. Inr \<lparr> up = Some Completes,
                            down = (if f = ''002_b.js'' then Some (Throws ''boom'') else Some Completes) \<rparr>),
       read_mode = Resolves, query_mode = Resolves,
       create_mode = (\<lambda>f. Resolves), delete_mode = (\<lambda>f. Resolves),
       now = (\<lambda>f. 0) \<rparr>"

text \<open>The same, but \<open>orm.create\<close> resolves with a failure reply for \<open>001_a.js\<close>.\<close>

definition failing_insert_env :: env where
  "failing_insert_env =
     sample_env\<lparr> readdir := Inr [''001_a.js'', ''002_b.js''],
                 create_mode := (\<lambda>f. if f = ''001_a.js'' then ResolvesFailure else Resolves) \<rparr>"


definition empty_state :: mstate where
  "empty_state = \<lparr> ledger = [], trace = [] \<rparr>"

text \<open>A ledger on which only \<open>001_a.js\<close> is applied, and the collaborators of the
  specification's scenarios C and D: two units, nothing fails.\<close>

definition one_applied_state :: mstate where
  "one_applied_state =
     \<lparr> ledger = [\<lparr> migration = ''001_a.js'', batch = 1, executed_at = 0 \<rparr>], trace = [] \<rparr>"

definition scenario_env :: env where
  "scenario_env =
     \<lparr> readdir = Inr [''001_a.js'', ''002_b.js''],
       require = (\<lambda>f. Inr \<lparr> up = Some Completes, down = Some Completes \<rparr>),
       read_mode = Resolves, query_mode = Resolves,
       create_mode = (\<lambda>f. Resolves), delete_mode = (\<lambda>f. Resolves),
       now = (\<lambda>f. 0) \<rparr>"

section \<open>Claims about the query compiler\<close>

text \<open>
  C5, as the specification words it, does not hold: the compiled text of
  \<open>table('users').insert({name:'Jane', age:25})\<close> under mysql is not
  \<open>INSERT INTO users (name,age) VALUES (?,?)\<close>. Both lists are joined with a comma and a
  space.
\<close>

theorem C5_insert_scenario_counterexample:
  "toSQL (chain [Database ''mysql'', Table ''users'',
       Insert (Some [(''name'', VStr ''Jane''), (''age'', VNum 25)])])
   \<noteq> Inr \<lparr> sql = ''INSERT INTO users (name,age) VALUES (?,?)'',
            sql_params = [VStr ''Jane'', VNum 25] \<rparr>"
  by code_simp

text \<open>
  C5 (amended): the intent \<open>table('users').insert({name:'Jane', age:25})\<close> compiled under
  mysql yields exactly the text \<open>INSERT INTO users (name, age) VALUES (?, ?)\<close> and exactly
  the parameter list \<open>['Jane', 25]\<close>, in that order.
\<close>

theorem C5_insert_scenario:
  "toSQL (chain [Database ''mysql'', Table ''users'',
       Insert (Some [(''name'', VStr ''Jane''), (''age'', VNum 25)])])
   = Inr \<lparr> sql = ''INSERT INTO users (name, age) VALUES (?, ?)'',
            sql_params = [VStr ''Jane'', VNum 25] \<rparr>"
  by code_simp

text \<open>
  C1 fails on the code: under postgresql, \<open>table('users').update({age: 31}).where('id', 1)\<close>
  compiles to a statement whose SET clause and WHERE clause both carry the marker \<open>$1\<close>,
  with two parameters; under snowflake, an update of two fields with a where condition and
  a \<open>whereIn\<close> of two values carries \<open>:1\<close> and \<open>:2\<close> twice each and no \<open>:4\<close> or \<open>:5\<close>, with
  five parameters. The SET clause numbers from the field index and \<open>_buildWhereClause\<close>
  starts its own counter at 0.
\<close>

theorem C1_update_markers_collide:
  "toSQL (chain [Database ''postgresql'', Table ''users'', Update (Some [(''age'', VNum 31)]),
       Where2 ''id'' (VNum 1)])
     = Inr \<lparr> sql = ''UPDATE users SET age = $1 WHERE id = $1'', sql_params = [VNum 31, VNum 1] \<rparr> \<and>
   toSQL (chain [Database ''snowflake'', Table ''users'',
       Update (Some [(''age'', VNum 31), (''name'', VStr ''Al'')]),
       Where2 ''id'' (VNum 1), WhereIn ''role'' [VStr ''a'', VStr ''b'']])
     = Inr \<lparr> sql = ''UPDATE users SET age = :1, name = :2 WHERE id = :1 AND role IN (:2, :3)'',
              sql_params = [VNum 31, VStr ''Al'', VNum 1, VStr ''a'', VStr ''b''] \<rparr>"
  by code_simp

subsection \<open>When compilation fails\<close>

lemma js_length_Inl: "js_length v = Inl e \<longleftrightarrow> (v = VNull \<and> e = TypeError)"
  by (cases v) auto

lemma whereLoop_Inl:
  "whereLoop db cs i acc = Inl e \<longleftrightarrow> (e = TypeError \<and> list_ex null_in_condition cs)"
proof (induction db cs i acc rule: whereLoop.induct)
  case (1 db index acc)
  then show ?case by simp
next
  case (2 db c cs index whereString paramCounter)
  show ?case
  proof (cases "coperator c = ''IN'' \<or> coperator c = ''NOT IN''")
    case True
    show ?thesis
    proof (cases "js_length (cvalue c)")
      case (Inl a)
      then have "cvalue c = VNull \<and> a = TypeError" by (simp add: js_length_Inl)
      with True Inl show ?thesis by (auto simp: null_in_condition_def Let_def)
    next
      case (Inr n)
      then have nn: "cvalue c \<noteq> VNull" by (cases "cvalue c") auto
      from True Inr nn "2.IH"(1)[OF refl True Inr refl refl] show ?thesis
        by (simp add: null_in_condition_def Let_def)
    qed
  next
    case False
    then have nn: "\<not> null_in_condition c" by (simp add: null_in_condition_def)
    show ?thesis
    proof (cases "coperator c = ''IS NULL'' \<or> coperator c = ''IS NOT NULL''")
      case True
      with False nn "2.IH"(2)[OF refl False True] show ?thesis by (simp add: Let_def)
    next
      case F2: False
      with False nn "2.IH"(3)[OF refl False F2] show ?thesis by (simp add: Let_def)
    qed
  qed
qed


lemma buildWhereClause_Inl:
  "buildWhereClause q = Inl e \<longleftrightarrow> (e = TypeError \<and> where_raises q)"
proof (cases "whereLoop (databaseType q) (whereConditions q) 0 ([], Some 0)")
  case (Inl a)
  then show ?thesis using whereLoop_Inl[of "databaseType q" "whereConditions q" 0 "([], Some 0)" a]
    by (auto simp: buildWhereClause_def where_raises_def)
next
  case (Inr r)
  then have "\<not> where_raises q"
    using whereLoop_Inl[of "databaseType q" "whereConditions q" 0 "([], Some 0)" TypeError]
    by (auto simp: where_raises_def)
  with Inr show ?thesis by (auto simp: buildWhereClause_def split: prod.splits)
qed

lemma where_raises_nonempty: "where_raises q \<Longrightarrow> whereConditions q \<noteq> []"
  by (auto simp: where_raises_def)

lemma addWhere_Inl:
  "addWhere q query = Inl e \<longleftrightarrow> (e = TypeError \<and> where_raises q)"
proof (cases "whereConditions q = []")
  case True
  then show ?thesis using where_raises_nonempty[of q] by (auto simp: addWhere_def)
next
  case False
  then show ?thesis using buildWhereClause_Inl[of q e]
    by (cases "buildWhereClause q") (auto simp: addWhere_def)
qed

lemma selectBody_Inl: "selectBody q = Inl e \<longleftrightarrow> (e = TypeError \<and> where_raises q)"
  using addWhere_Inl[of q "selectFrom q" e]
  by (cases "addWhere q (selectFrom q)") (auto simp: selectBody_def)

lemma buildSelectQuery_Inl: "buildSelectQuery q = Inl e \<longleftrightarrow> (e = TypeError \<and> where_raises q)"
  using selectBody_Inl[of q e] by (cases "selectBody q") (auto simp: buildSelectQuery_def)

lemma buildDeleteQuery_Inl: "buildDeleteQuery q = Inl e \<longleftrightarrow> (e = TypeError \<and> where_raises q)"
  using addWhere_Inl[of q "''DELETE FROM '' @ render_name (tableName q)" e]
  by (cases "addWhere q (''DELETE FROM '' @ render_name (tableName q))") (auto simp: buildDeleteQuery_def)

lemma buildUpdateQuery_Inl:
  "buildUpdateQuery q = Inl e \<longleftrightarrow>
     ((updateData q = None \<and> e = Error ''Update data must be specified'') \<or>
      (updateData q \<noteq> None \<and> where_raises q \<and> e = TypeError))"
proof (cases "updateData q")
  case None
  then show ?thesis by (auto simp: buildUpdateQuery_def)
next
  case (Some d)
  define query where "query = ''UPDATE '' @ render_name (tableName q) @ '' SET '' @ join_with '', ''
                (map (\<lambda>(field, index). field @ '' = '' @ placeholder (databaseType q) (Some (index + 1)))
                   (zip (map fst d) [0..<length (map fst d)]))"
  show ?thesis
  proof (cases "addWhere q query")
    case (Inl a)
    with Some have "buildUpdateQuery q = Inl a" by (simp add: buildUpdateQuery_def Let_def query_def)
    with Inl Some addWhere_Inl[of q query a] addWhere_Inl[of q query e] show ?thesis by auto
  next
    case (Inr r)
    with Some have "\<exists>x. buildUpdateQuery q = Inr x" by (simp add: buildUpdateQuery_def Let_def query_def)
    moreover from Inr addWhere_Inl[of q query TypeError] have "\<not> where_raises q" by simp
    ultimately show ?thesis using Some by auto
  qed
qed

lemma buildInsertQuery_Inl:
  "buildInsertQuery q = Inl e \<longleftrightarrow> (insertData q = None \<and> e = Error ''Insert data must be specified'')"
  by (auto simp: buildInsertQuery_def Let_def split: option.splits)


text \<open>
  C2, as the specification words it, does not hold. An intent without a target table
  compiles (the text names the table \<open>null\<close>); an insert whose payload is the empty object
  compiles; an intent under a dialect the compiler does not know compiles with the
  unnamed marker.
\<close>

theorem C2_toSQL_failures_counterexample:
  "toSQL (chain [Database ''mysql'', Select (Inr ''*'')])
     = Inr \<lparr> sql = ''SELECT * FROM null'', sql_params = [] \<rparr> \<and>
   toSQL (chain [Database ''mysql'', Table ''users'', Insert (Some [])])
     = Inr \<lparr> sql = ''INSERT INTO users () VALUES ()'', sql_params = [] \<rparr> \<and>
   toSQL (chain [Database ''oracle'', Table ''users'', Select (Inr ''*''), Where2 ''id'' (VNum 1)])
     = Inr \<lparr> sql = ''SELECT * FROM users WHERE id = ?'', sql_params = [VNum 1] \<rparr>"
  by code_simp

text \<open>
  C2 (amended): \<open>toSQL\<close> fails, returning no compiled query, if and only if the dialect is
  unset (\<open>null\<close> or the empty string), or the operation kind is unset, or the operation is
  insert or update and the payload is absent (\<open>null\<close>), or the operation is select, update
  or delete and some where condition with operator IN or NOT IN records the value \<open>null\<close>.
  The first four failures are a plain \<open>Error\<close> with the messages below, checked in this
  order; the last is the engine's TypeError. The target table plays no part, and neither
  does the emptiness of a payload or the name of a dialect that is set.
\<close>

theorem C2_toSQL_failures:
  "toSQL q = Inl err \<longleftrightarrow>
     (if databaseType q = None \<or> databaseType q = Some [] then
        err = Error ''Database type must be specified using .database() method''
      else
        (case queryType q of
           None \<Rightarrow> err = Error ''Query type must be specified''
         | Some INSERT \<Rightarrow> insertData q = None \<and> err = Error ''Insert data must be specified''
         | Some UPDATE \<Rightarrow>
             (updateData q = None \<and> err = Error ''Update data must be specified'') \<or>
             (updateData q \<noteq> None \<and> where_raises q \<and> err = TypeError)
         | Some SELECT \<Rightarrow> where_raises q \<and> err = TypeError
         | Some DELETE \<Rightarrow> where_raises q \<and> err = TypeError))"
  (is "?L \<longleftrightarrow> ?R")
proof (cases "databaseType q = None \<or> databaseType q = Some []")
  case True
  then have "toSQL q = Inl (Error ''Database type must be specified using .database() method'')"
    by (simp add: toSQL_def)
  moreover from True
  have "?R \<longleftrightarrow> err = Error ''Database type must be specified using .database() method''"
    by simp
  ultimately show ?thesis by (simp add: eq_commute)
next
  case False
  then have d1: "databaseType q \<noteq> None" and d2: "databaseType q \<noteq> Some []" by simp_all
  show ?thesis
  proof (cases "queryType q")
    case None
    then have "toSQL q = Inl (Error ''Query type must be specified'')"
      by (simp add: toSQL_def d1 d2)
    moreover from None have "?R \<longleftrightarrow> err = Error ''Query type must be specified''"
      by (simp add: d1 d2)
    ultimately show ?thesis by (simp add: eq_commute)
  next
    case (Some t)
    show ?thesis
    proof (cases t)
      case SELECT
      with Some have "toSQL q = buildSelectQuery q" by (simp add: toSQL_def d1 d2)
      moreover from Some SELECT have "?R \<longleftrightarrow> (err = TypeError \<and> where_raises q)"
        by (simp add: d1 d2 conj_commute)
      ultimately show ?thesis by (simp only: buildSelectQuery_Inl)
    next
      case INSERT
      with Some have "toSQL q = buildInsertQuery q" by (simp add: toSQL_def d1 d2)
      moreover from Some INSERT
      have "?R \<longleftrightarrow> (insertData q = None \<and> err = Error ''Insert data must be specified'')"
        by (simp add: d1 d2)
      ultimately show ?thesis by (simp only: buildInsertQuery_Inl)
    next
      case UPDATE
      with Some have "toSQL q = buildUpdateQuery q" by (simp add: toSQL_def d1 d2)
      moreover from Some UPDATE
      have "?R \<longleftrightarrow> ((updateData q = None \<and> err = Error ''Update data must be specified'') \<or>
              (updateData q \<noteq> None \<and> where_raises q \<and> err = TypeError))"
        by (simp add: d1 d2)
      ultimately show ?thesis by (simp only: buildUpdateQuery_Inl)
    next
      case DELETE
      with Some have "toSQL q = buildDeleteQuery q" by (simp add: toSQL_def d1 d2)
      moreover from Some DELETE have "?R \<longleftrightarrow> (err = TypeError \<and> where_raises q)"
        by (simp add: d1 d2 conj_commute)
      ultimately show ?thesis by (simp only: buildDeleteQuery_Inl)
    qed
  qed
qed



section \<open>Claims about the schema differ\<close>

lemma filter_notin_self: "filter (\<lambda>x. x \<notin> set xs) xs = []"
  by (simp add: filter_empty_conv)

lemma compareTable_same:
  "compareTable stringify t T T no_differences = no_differences"
  by (simp add: compareTable_def Let_def filter_notin_self)

lemma obj_get_key: "t \<in> set (keys_of S) \<Longrightarrow> \<exists>T. obj_get S t = Some T"
  by (cases S) (auto simp: keys_of_def obj_get_def weak_map_of_SomeI map_of_eq_None_iff[symmetric] simp del: map_of_eq_None_iff)

lemma compareLoop_same:
  "set ts \<subseteq> set (keys_of S) \<Longrightarrow> compareLoop stringify S S ts no_differences = Inr no_differences"
proof (induction ts)
  case Nil
  then show ?case by simp
next
  case (Cons t ts)
  then obtain T where "obj_get S t = Some T" using obj_get_key[of t S] by auto
  with Cons show ?case by (simp add: compareTable_same)
qed


text \<open>
  C7: comparing a schema snapshot with itself yields the diff in which every category
  (added and dropped tables, added, dropped and modified columns, added and dropped
  indexes) is empty, whatever \<open>JSON.stringify\<close> computes and also for the absent
  (\<open>null\<close>) snapshot.
\<close>

theorem C7_diff_same_snapshot:
  "compareSchemas stringify S S = Inr no_differences"
proof -
  have "no_differences\<lparr> addedTables := [], droppedTables := [] \<rparr> = (no_differences :: ('a, 'b) differences)"
    by (simp add: no_differences_def)
  then show ?thesis
    by (simp add: compareSchemas_def Let_def filter_notin_self compareLoop_same)
qed

section \<open>Claims about chains of builder calls\<close>

subsection \<open>LIMIT and OFFSET\<close>

lemma whereObj_fold:
  "foldl (\<lambda>q (key, val). q\<lparr> whereConditions := whereConditions q @
              [\<lparr> cfield = key, coperator = ''='', cvalue = val, ctype = ''AND'' \<rparr>],
            params := params q @ [val] \<rparr>) q obj =
     q\<lparr> whereConditions := whereConditions q @
            map (\<lambda>(key, val). \<lparr> cfield = key, coperator = ''='', cvalue = val, ctype = ''AND'' \<rparr>) obj,
        params := params q @ map snd obj \<rparr>"
  by (induction obj arbitrary: q) auto

lemmas call_defs = pushParams_def pushWhere_def pushJoin_def whereObj_fold reset_def

lemma call_limit_None:
  "\<not> is_limit m \<Longrightarrow> limitValue q = None \<Longrightarrow> limitValue (call q m) = None"
  by (cases m) (auto simp: call_defs split: sum.splits jsval.splits)

lemma foldl_call_limit_None:
  "list_all (\<lambda>m. \<not> is_limit m) ms \<Longrightarrow> limitValue q = None \<Longrightarrow> limitValue (foldl call q ms) = None"
  by (induction ms arbitrary: q) (auto simp: call_limit_None)

lemma chain_limit_None:
  "list_all (\<lambda>m. \<not> is_limit m) ms \<Longrightarrow> limitValue (chain ms) = None"
  unfolding chain_def by (rule foldl_call_limit_None) (simp_all add: reset_def)

lemma call_offset_irrelevant:
  "\<not> is_offset m \<Longrightarrow>
   (call (q\<lparr> offsetValue := v \<rparr>) m)\<lparr> offsetValue := None \<rparr> = (call q m)\<lparr> offsetValue := None \<rparr>"
  by (cases m) (auto simp: call_defs split: sum.splits jsval.splits)

lemma call_offset_drop:
  "is_offset m \<Longrightarrow> (call q m)\<lparr> offsetValue := None \<rparr> = q\<lparr> offsetValue := None \<rparr>"
  by (cases m) auto

lemma foldl_call_drop_offsets:
  "q\<lparr> offsetValue := None \<rparr> = q'\<lparr> offsetValue := None \<rparr> \<Longrightarrow>
   (foldl call q ms)\<lparr> offsetValue := None \<rparr> =
   (foldl call q' (filter (\<lambda>m. \<not> is_offset m) ms))\<lparr> offsetValue := None \<rparr>"
proof (induction ms arbitrary: q q')
  case Nil
  then show ?case by simp
next
  case (Cons m ms)
  show ?case
  proof (cases "is_offset m")
    case True
    then have "(call q m)\<lparr> offsetValue := None \<rparr> = q'\<lparr> offsetValue := None \<rparr>"
      using Cons.prems by (simp add: call_offset_drop)
    from Cons.IH[OF this] True show ?thesis by simp
  next
    case False
    have "q = (q\<lparr> offsetValue := None \<rparr>)\<lparr> offsetValue := offsetValue q \<rparr>" by simp
    then have qq: "q = (q'\<lparr> offsetValue := offsetValue q \<rparr>)" using Cons.prems by simp
    have "(call q m)\<lparr> offsetValue := None \<rparr> = (call q' m)\<lparr> offsetValue := None \<rparr>"
      by (subst qq) (rule call_offset_irrelevant[OF False])
    from Cons.IH[OF this] False show ?thesis by simp
  qed
qed

lemma buildWhereClause_offset: "buildWhereClause (q\<lparr> offsetValue := v \<rparr>) = buildWhereClause q"
  by (simp add: buildWhereClause_def)

lemma addWhere_offset: "addWhere (q\<lparr> offsetValue := v \<rparr>) query = addWhere q query"
  by (simp add: addWhere_def buildWhereClause_offset)

lemma buildHavingClause_offset: "buildHavingClause (q\<lparr> offsetValue := v \<rparr>) = buildHavingClause q"
  by (simp add: buildHavingClause_def)

lemma clauses_offset:
  "selectFrom (q\<lparr> offsetValue := v \<rparr>) = selectFrom q"
  "groupByClause (q\<lparr> offsetValue := v \<rparr>) = groupByClause q"
  "havingClause (q\<lparr> offsetValue := v \<rparr>) = havingClause q"
  "orderByClause (q\<lparr> offsetValue := v \<rparr>) = orderByClause q"
  by (simp_all add: selectFrom_def groupByClause_def havingClause_def orderByClause_def
      buildHavingClause_offset)

lemma selectBody_offset: "selectBody (q\<lparr> offsetValue := v \<rparr>) = selectBody q"
  by (cases "addWhere q (selectFrom q)") (simp_all add: selectBody_def addWhere_offset clauses_offset)

lemma toSQL_offset_irrelevant:
  "limitValue q = None \<Longrightarrow> toSQL (q\<lparr> offsetValue := v \<rparr>) = toSQL q"
proof -
  assume l: "limitValue q = None"
  then have lo: "limitOffset (q\<lparr> offsetValue := v \<rparr>) = limitOffset q"
    by (simp add: limitOffset_def)
  have s: "buildSelectQuery (q\<lparr> offsetValue := v \<rparr>) = buildSelectQuery q"
    by (cases "selectBody q") (simp_all add: buildSelectQuery_def selectBody_offset lo)
  have i: "buildInsertQuery (q\<lparr> offsetValue := v \<rparr>) = buildInsertQuery q"
    by (cases "insertData q") (simp_all add: buildInsertQuery_def)
  have u: "buildUpdateQuery (q\<lparr> offsetValue := v \<rparr>) = buildUpdateQuery q"
    by (cases "updateData q") (simp_all add: buildUpdateQuery_def addWhere_offset Let_def cong: sum.case_cong)
  have d: "buildDeleteQuery (q\<lparr> offsetValue := v \<rparr>) = buildDeleteQuery q"
    by (simp add: buildDeleteQuery_def addWhere_offset cong: sum.case_cong)
  show ?thesis by (simp add: toSQL_def s i u d split: option.split query_type.split)
qed

lemma endsWith_append: "endsWith (a @ b) b"
  by (simp add: endsWith_def)

lemma startsWith_append: "startsWith (p @ r) p"
  by (simp add: startsWith_def)

lemma limitOffset_cases:
  "(emitsOffset q \<longleftrightarrow> emitsLimit q \<and> offsetValue q \<noteq> None) \<and>
   (limitValue q = None \<longrightarrow> limitOffset q = [] \<and> \<not> emitsLimit q \<and> \<not> emitsOffset q)"
proof (cases "limitValue q")
  case None
  then have "limitOffset q = []" by (simp add: limitOffset_def)
  then show ?thesis using None
    by (cases "offsetValue q") (simp_all add: emitsOffset_def emitsLimit_def startsWith_def endsWith_def)
next
  case (Some l)
  show ?thesis
  proof (cases "offsetValue q")
    case None
    with Some have "limitOffset q = '' LIMIT '' @ show_int l" by (simp add: limitOffset_def)
    then have "emitsLimit q" using startsWith_append[of "'' LIMIT ''" "show_int l"]
      by (simp add: emitsLimit_def)
    with None Some show ?thesis by (simp add: emitsOffset_def)
  next
    case (Some off)
    with \<open>limitValue q = Some l\<close>
    have lo: "limitOffset q = '' LIMIT '' @ (show_int l @ '' OFFSET '' @ show_int off)"
      and lo': "limitOffset q = ('' LIMIT '' @ show_int l) @ ('' OFFSET '' @ show_int off)"
      by (simp_all add: limitOffset_def)
    have "emitsLimit q" unfolding emitsLimit_def lo by (rule startsWith_append)
    moreover have "emitsOffset q" unfolding emitsOffset_def Some option.case lo'
      by (rule endsWith_append)
    ultimately show ?thesis using Some \<open>limitValue q = Some l\<close> by simp
  qed
qed


lemma call_offset_kept:
  "\<not> is_reset m \<Longrightarrow> offsetValue q \<noteq> None \<Longrightarrow> offsetValue (call q m) \<noteq> None"
  by (cases m) (auto simp: call_defs split: sum.splits jsval.splits)

lemma call_offset_set: "is_offset m \<Longrightarrow> offsetValue (call q m) \<noteq> None"
  by (cases m) auto

lemma foldl_call_offset_set:
  "list_all (\<lambda>m. \<not> is_reset m) ms \<Longrightarrow> offsetValue q \<noteq> None \<or> list_ex is_offset ms \<Longrightarrow>
   offsetValue (foldl call q ms) \<noteq> None"
proof (induction ms arbitrary: q)
  case Nil
  then show ?case by simp
next
  case (Cons m ms)
  from Cons.prems(1) have nr: "\<not> is_reset m" and nrs: "list_all (\<lambda>m. \<not> is_reset m) ms" by simp_all
  have "offsetValue (call q m) \<noteq> None \<or> list_ex is_offset ms"
  proof (cases "is_offset m")
    case True
    then show ?thesis by (simp add: call_offset_set)
  next
    case False
    with Cons.prems(2) have "offsetValue q \<noteq> None \<or> list_ex is_offset ms" by simp
    then show ?thesis using call_offset_kept[OF nr] by blast
  qed
  from Cons.IH[OF nrs this] show ?case by simp
qed

text \<open>
  C10: for a select intent built by a chain of builder calls that compiles: the compiled
  text is the text up to ORDER BY followed by what the LIMIT/OFFSET block appends. When
  \<open>limit\<close> was never called, that block appends nothing (no LIMIT clause and no OFFSET
  clause), and the compiled query is the one of the same chain with every \<open>offset\<close> call
  left out: the offset value is dropped. On such an intent, and on every intent whose offset
  is set, as it is once \<open>offset\<close> was called (and the builder not reset), an OFFSET clause
  appears if and only if a LIMIT clause appears; on any intent, an OFFSET clause is
  appended exactly when a LIMIT clause is appended and an offset is set.
\<close>

theorem C10_offset_only_with_limit:
  assumes sel: "queryType (chain ms) = Some SELECT" and ok: "toSQL (chain ms) = Inr c"
  shows "(\<exists>body. selectBody (chain ms) = Inr body \<and> sql c = body @ limitOffset (chain ms)) \<and>
         (list_all (\<lambda>m. \<not> is_limit m) ms \<longrightarrow>
            limitOffset (chain ms) = [] \<and> \<not> emitsLimit (chain ms) \<and> \<not> emitsOffset (chain ms) \<and>
            (emitsOffset (chain ms) \<longleftrightarrow> emitsLimit (chain ms)) \<and>
            toSQL (chain (filter (\<lambda>m. \<not> is_offset m) ms)) = Inr c) \<and>
         (emitsOffset (chain ms) \<longleftrightarrow> emitsLimit (chain ms) \<and> offsetValue (chain ms) \<noteq> None) \<and>
         (offsetValue (chain ms) \<noteq> None \<longrightarrow> (emitsOffset (chain ms) \<longleftrightarrow> emitsLimit (chain ms))) \<and>
         (list_ex is_offset ms \<and> list_all (\<lambda>m. \<not> is_reset m) ms \<longrightarrow> offsetValue (chain ms) \<noteq> None)"
proof -
  let ?q = "chain ms"
  have b: "buildSelectQuery ?q = Inr c" using sel ok by (auto simp: toSQL_def split: if_splits)
  then have p1: "\<exists>body. selectBody ?q = Inr body \<and> sql c = body @ limitOffset ?q"
    by (cases "selectBody ?q") (auto simp: buildSelectQuery_def)
  have p2: "toSQL (chain (filter (\<lambda>m. \<not> is_offset m) ms)) = Inr c"
    if nl: "list_all (\<lambda>m. \<not> is_limit m) ms"
  proof -
    let ?q' = "chain (filter (\<lambda>m. \<not> is_offset m) ms)"
    have eq: "?q\<lparr> offsetValue := None \<rparr> = ?q'\<lparr> offsetValue := None \<rparr>"
      unfolding chain_def by (rule foldl_call_drop_offsets) simp
    have l: "limitValue ?q = None" using nl by (rule chain_limit_None)
    have "limitValue (?q\<lparr> offsetValue := None \<rparr>) = None" using l by simp
    then have l': "limitValue ?q' = None" by (simp add: eq)
    have "toSQL ?q' = toSQL (?q'\<lparr> offsetValue := None \<rparr>)"
      using toSQL_offset_irrelevant[OF l', of None] by simp
    also have "\<dots> = toSQL (?q\<lparr> offsetValue := None \<rparr>)" by (simp add: eq)
    also have "\<dots> = toSQL ?q" using toSQL_offset_irrelevant[OF l, of None] by simp
    finally show ?thesis using ok by simp
  qed
  have c3: "emitsOffset ?q \<longleftrightarrow> emitsLimit ?q \<and> offsetValue ?q \<noteq> None"
    using limitOffset_cases[of ?q] by (rule conjunct1)
  have c4: "offsetValue ?q \<noteq> None \<longrightarrow> (emitsOffset ?q \<longleftrightarrow> emitsLimit ?q)"
    using c3 by simp
  have c2: "list_all (\<lambda>m. \<not> is_limit m) ms \<longrightarrow>
            limitOffset ?q = [] \<and> \<not> emitsLimit ?q \<and> \<not> emitsOffset ?q \<and>
            (emitsOffset ?q \<longleftrightarrow> emitsLimit ?q) \<and>
            toSQL (chain (filter (\<lambda>m. \<not> is_offset m) ms)) = Inr c"
  proof
    assume nl: "list_all (\<lambda>m. \<not> is_limit m) ms"
    then have "limitValue ?q = None" by (rule chain_limit_None)
    with limitOffset_cases[of ?q]
    have "limitOffset ?q = [] \<and> \<not> emitsLimit ?q \<and> \<not> emitsOffset ?q" by simp
    with p2[OF nl]
    show "limitOffset ?q = [] \<and> \<not> emitsLimit ?q \<and> \<not> emitsOffset ?q \<and>
            (emitsOffset ?q \<longleftrightarrow> emitsLimit ?q) \<and>
            toSQL (chain (filter (\<lambda>m. \<not> is_offset m) ms)) = Inr c" by simp
  qed
  have c5: "list_ex is_offset ms \<and> list_all (\<lambda>m. \<not> is_reset m) ms \<longrightarrow> offsetValue ?q \<noteq> None"
    unfolding chain_def using foldl_call_offset_set[of ms reset] by blast
  from p1 c2 c3 c4 c5 show ?thesis by (intro conjI)
qed

lemma offset_chain_select: "queryType (chain [Database ''mysql'', Table ''users'', Select (Inr ''*''), Offset 5]) = Some SELECT"
  by code_simp
lemma offset_chain_compiled: "toSQL (chain [Database ''mysql'', Table ''users'', Select (Inr ''*''), Offset 5]) =
   Inr \<lparr> sql = ''SELECT * FROM users'', sql_params = [] \<rparr>"
  by code_simp


text \<open>An instance: \<open>table('users').select('*').offset(5)\<close> under mysql.\<close>

theorem C10_offset_only_with_limit_witness:
  "queryType (chain [Database ''mysql'', Table ''users'', Select (Inr ''*''), Offset 5]) = Some SELECT \<and>
   toSQL (chain [Database ''mysql'', Table ''users'', Select (Inr ''*''), Offset 5]) =
     Inr \<lparr> sql = ''SELECT * FROM users'', sql_params = [] \<rparr> \<and>
   limitOffset (chain [Database ''mysql'', Table ''users'', Select (Inr ''*''), Offset 5]) = [] \<and>
   \<not> emitsOffset (chain [Database ''mysql'', Table ''users'', Select (Inr ''*''), Offset 5]) \<and>
   toSQL (chain (filter (\<lambda>m. \<not> is_offset m)
            [Database ''mysql'', Table ''users'', Select (Inr ''*''), Offset 5])) =
     Inr \<lparr> sql = ''SELECT * FROM users'', sql_params = [] \<rparr>"
proof -
  have nl: "list_all (\<lambda>m. \<not> is_limit m) [Database ''mysql'', Table ''users'', Select (Inr ''*''), Offset 5]"
    by simp
  show ?thesis using C10_offset_only_with_limit[OF offset_chain_select offset_chain_compiled] nl offset_chain_select offset_chain_compiled by simp
qed

subsection \<open>The parameter list of an update\<close>

lemma where_values_Nil: "where_values [] = []"
  by (simp add: where_values_def)

lemma where_values_single: "where_values [c] = condition_values c"
  by (simp add: where_values_def)

lemma where_values_append: "where_values (cs @ ds) = where_values cs @ where_values ds"
  by (simp add: where_values_def)

lemma where_values_obj:
  "where_values (map (\<lambda>(key, val). \<lparr> cfield = key, coperator = ''='', cvalue = val, ctype = ''AND'' \<rparr>) obj)
     = map snd obj"
  by (induction obj) (auto simp: where_values_def condition_values_def)

lemma array_in_obj:
  "list_all array_in_condition
     (map (\<lambda>(key, val). \<lparr> cfield = key, coperator = ''='', cvalue = val, ctype = ''AND'' \<rparr>) obj)"
  by (induction obj) (auto simp: array_in_condition_def)

lemma array_in_not_null: "array_in_condition c \<Longrightarrow> \<not> null_in_condition c"
  by (auto simp: array_in_condition_def null_in_condition_def)

text \<open>What a chain of dedicated calls keeps true: the parameter list is the list of
  where-condition values, and every IN condition carries an array.\<close>

lemma call_dedicated_inv:
  assumes "dedicated m"
    and "params q = where_values (whereConditions q)"
    and "list_all array_in_condition (whereConditions q)"
  shows "params (call q m) = where_values (whereConditions (call q m)) \<and>
         list_all array_in_condition (whereConditions (call q m))"
  using assms
  by (cases m)
     (auto simp: call_defs dedicated_def where_values_single where_values_append where_values_obj
        array_in_obj condition_values_def array_in_condition_def special_ops_def comparison_ops_def
        where_values_Nil
        split: sum.splits jsval.splits)


lemma foldl_call_dedicated_inv:
  "list_all dedicated ms \<Longrightarrow> params q = where_values (whereConditions q) \<Longrightarrow>
   list_all array_in_condition (whereConditions q) \<Longrightarrow>
   params (foldl call q ms) = where_values (whereConditions (foldl call q ms)) \<and>
   list_all array_in_condition (whereConditions (foldl call q ms))"
proof (induction ms arbitrary: q)
  case Nil
  then show ?case by simp
next
  case (Cons m ms)
  from Cons.prems have d: "dedicated m" and ds: "list_all dedicated ms" by simp_all
  from call_dedicated_inv[OF d Cons.prems(2) Cons.prems(3)]
  have "params (call q m) = where_values (whereConditions (call q m))"
    and "list_all array_in_condition (whereConditions (call q m))" by simp_all
  from Cons.IH[OF ds this] show ?case by simp
qed

lemma chain_dedicated_inv:
  "list_all dedicated ms \<Longrightarrow>
   params (chain ms) = where_values (whereConditions (chain ms)) \<and>
   list_all array_in_condition (whereConditions (chain ms))"
  unfolding chain_def
  by (rule foldl_call_dedicated_inv) (simp_all add: reset_def where_values_Nil)

lemma array_in_no_raise: "list_all array_in_condition (whereConditions q) \<Longrightarrow> \<not> where_raises q"
  by (auto simp: where_raises_def list_all_iff list_ex_iff array_in_not_null)

lemma toSQL_update:
  assumes "queryType q = Some UPDATE" "updateData q = Some d" "databaseType q = Some db" "db \<noteq> []"
    and "\<not> where_raises q"
  shows "\<exists>stmt. toSQL q = Inr \<lparr> sql = stmt, sql_params = map snd d @ params q \<rparr>"
proof -
  from assms have t: "toSQL q = buildUpdateQuery q" by (simp add: toSQL_def)
  define query where "query = ''UPDATE '' @ render_name (tableName q) @ '' SET '' @ join_with '', ''
                (map (\<lambda>(field, index). field @ '' = '' @ placeholder (databaseType q) (Some (index + 1)))
                   (zip (map fst d) [0..<length (map fst d)]))"
  show ?thesis
  proof (cases "addWhere q query")
    case (Inl e)
    with addWhere_Inl[of q query e] assms(5) show ?thesis by simp
  next
    case (Inr stmt)
    with assms(2) have "buildUpdateQuery q = Inr \<lparr> sql = stmt, sql_params = map snd d @ params q \<rparr>"
      by (simp add: buildUpdateQuery_def Let_def query_def)
    with t show ?thesis by simp
  qed
qed


text \<open>
  C6, as the specification words it, does not hold for every update intent: the builder
  keeps one parameter list for every value-carrying call, and \<open>_buildUpdateQuery\<close> appends
  the whole of it. After \<open>update({a: 1}).having('n', '>', 0)\<close> the intent has no where
  condition, and the compiled parameter list is \<open>[1, 0]\<close>, not \<open>[1]\<close>. After
  \<open>update({a: 1}).where('id', 'IN', [1, 2])\<close> the array is one entry of the list, for two
  markers.
\<close>

theorem C6_update_params_counterexample:
  "toSQL (chain [Database ''mysql'', Table ''t'', Update (Some [(''a'', VNum 1)]),
       Having3 ''n'' ''>'' (VNum 0)])
     = Inr \<lparr> sql = ''UPDATE t SET a = ?'', sql_params = [VNum 1, VNum 0] \<rparr> \<and>
   whereConditions (chain [Database ''mysql'', Table ''t'', Update (Some [(''a'', VNum 1)]),
       Having3 ''n'' ''>'' (VNum 0)]) = [] \<and>
   map snd [(''a'', VNum 1)] @ where_values [] \<noteq> [VNum 1, VNum 0] \<and>
   toSQL (chain [Database ''mysql'', Table ''t'', Update (Some [(''a'', VNum 1)]),
       Where3 ''id'' ''IN'' (VArr [VNum 1, VNum 2])])
     = Inr \<lparr> sql = ''UPDATE t SET a = ? WHERE id IN (?, ?)'',
              sql_params = [VNum 1, VArr [VNum 1, VNum 2]] \<rparr>"
  by code_simp

text \<open>
  C6 (amended): for every update intent built by a chain of calls none of which is
  \<open>having\<close> or a three-argument \<open>where\<close>/\<open>orWhere\<close> with operator IN, NOT IN, IS NULL or
  IS NOT NULL, with a payload and a dialect set, compilation succeeds and the parameter
  list is the payload values in payload key order followed by the where-condition values
  in the order the conditions were recorded (each element of an IN or NOT IN collection,
  nothing for IS NULL and IS NOT NULL).
\<close>

theorem C6_update_params:
  assumes "list_all dedicated ms"
    and "queryType (chain ms) = Some UPDATE"
    and "updateData (chain ms) = Some d"
    and "databaseType (chain ms) = Some db" and "db \<noteq> []"
  shows "\<exists>stmt. toSQL (chain ms) =
           Inr \<lparr> sql = stmt, sql_params = map snd d @ where_values (whereConditions (chain ms)) \<rparr>"
proof -
  from chain_dedicated_inv[OF assms(1)]
  have p: "params (chain ms) = where_values (whereConditions (chain ms))"
    and a: "list_all array_in_condition (whereConditions (chain ms))" by simp_all
  from toSQL_update[OF assms(2) assms(3) assms(4) assms(5) array_in_no_raise[OF a]] p
  show ?thesis by simp
qed

lemma update_chain_calls: "list_all dedicated [Database ''mysql'', Table ''users'', Update (Some [(''age'', VNum 31), (''name'', VStr ''Al'')]),
     Where2 ''id'' (VNum 1), WhereIn ''role'' [VStr ''a'', VStr ''b''], WhereNull ''deleted_at'']"
  by (simp add: dedicated_def)

lemma update_chain_update: "queryType (chain [Database ''mysql'', Table ''users'', Update (Some [(''age'', VNum 31), (''name'', VStr ''Al'')]),
     Where2 ''id'' (VNum 1), WhereIn ''role'' [VStr ''a'', VStr ''b''], WhereNull ''deleted_at'']) = Some UPDATE"
  by code_simp

lemma update_chain_payload: "updateData (chain [Database ''mysql'', Table ''users'', Update (Some [(''age'', VNum 31), (''name'', VStr ''Al'')]),
     Where2 ''id'' (VNum 1), WhereIn ''role'' [VStr ''a'', VStr ''b''], WhereNull ''deleted_at''])
     = Some [(''age'', VNum 31), (''name'', VStr ''Al'')]"
  by code_simp

lemma update_chain_db: "databaseType (chain [Database ''mysql'', Table ''users'', Update (Some [(''age'', VNum 31), (''name'', VStr ''Al'')]),
     Where2 ''id'' (VNum 1), WhereIn ''role'' [VStr ''a'', VStr ''b''], WhereNull ''deleted_at'']) = Some ''mysql''"
  by code_simp

lemma update_chain_where_values: "where_values (whereConditions (chain [Database ''mysql'', Table ''users'', Update (Some [(''age'', VNum 31), (''name'', VStr ''Al'')]),
     Where2 ''id'' (VNum 1), WhereIn ''role'' [VStr ''a'', VStr ''b''], WhereNull ''deleted_at'']))
   = [VNum 1, VStr ''a'', VStr ''b'']"
  by code_simp


text \<open>An instance: \<open>update({age: 31, name: 'Al'}).where('id', 1).whereIn('role', ['a', 'b'])
  .whereNull('deleted_at')\<close> under mysql.\<close>

theorem C6_update_params_witness:
  "\<exists>stmt. toSQL (chain [Database ''mysql'', Table ''users'',
       Update (Some [(''age'', VNum 31), (''name'', VStr ''Al'')]),
       Where2 ''id'' (VNum 1), WhereIn ''role'' [VStr ''a'', VStr ''b''], WhereNull ''deleted_at''])
     = Inr \<lparr> sql = stmt, sql_params = [VNum 31, VStr ''Al'', VNum 1, VStr ''a'', VStr ''b''] \<rparr>"
  using C6_update_params[OF update_chain_calls update_chain_update update_chain_payload update_chain_db] update_chain_where_values by simp


subsection \<open>HAVING values\<close>























section \<open>Claims about the migration engine\<close>

subsection \<open>reset and rollback\<close>

lemma rollbackMigration_fst:
  "fst (rollbackMigration e st name) = fst (rollbackMigration e st0 name)"
  by (auto simp: rollbackMigration_def orm_deleteRecord_def Let_def
      split: sum.splits option.splits outcome.splits orm_mode.splits)

lemma rollbackMigration_trace:
  "trace (snd (rollbackMigration e st name)) = trace st @ rollback_events e name"
  by (auto simp: rollback_events_def rollbackMigration_def orm_deleteRecord_def Let_def
      split: sum.splits option.splits outcome.splits orm_mode.splits)

lemma rollbackMigration_Inl:
  assumes "rollbackMigration e st name = (Inl msg, st')"
  shows "rollback_fails e name \<and> trace st' = trace st @ rollback_events e name"
proof -
  have "fst (rollbackMigration e \<lparr> ledger = [], trace = [] \<rparr> name) = Inl msg"
    using rollbackMigration_fst[of e "\<lparr> ledger = [], trace = [] \<rparr>" name st] assms by simp
  then have "rollback_fails e name" by (simp add: rollback_fails_def)
  moreover have "trace st' = trace st @ rollback_events e name"
    using rollbackMigration_trace[of e st name] assms by simp
  ultimately show ?thesis by simp
qed

lemma rollbackMigration_Inr:
  assumes "rollbackMigration e st name = (Inr u, st')"
  shows "\<not> rollback_fails e name \<and> trace st' = trace st @ rollback_events e name"
proof -
  have "fst (rollbackMigration e \<lparr> ledger = [], trace = [] \<rparr> name) = Inr u"
    using rollbackMigration_fst[of e "\<lparr> ledger = [], trace = [] \<rparr>" name st] assms by simp
  then have "\<not> rollback_fails e name" by (simp add: rollback_fails_def)
  moreover have "trace st' = trace st @ rollback_events e name"
    using rollbackMigration_trace[of e st name] assms by simp
  ultimately show ?thesis by simp
qed


lemma rollbackLoop_result:
  "rollbackLoop e rs done st = (done', errs', st') \<Longrightarrow>
   done' = done @ takeWhile (\<lambda>n. \<not> rollback_fails e n) (map migration rs) \<and>
   map fst errs' = take 1 (dropWhile (\<lambda>n. \<not> rollback_fails e n) (map migration rs)) \<and>
   trace st' = trace st @ concat (map (rollback_events e)
     (takeWhile (\<lambda>n. \<not> rollback_fails e n) (map migration rs) @
      take 1 (dropWhile (\<lambda>n. \<not> rollback_fails e n) (map migration rs))))"
proof (induction rs arbitrary: "done" st)
  case Nil
  then show ?case by simp
next
  case (Cons r rs)
  obtain x st1 where x: "rollbackMigration e st (migration r) = (x, st1)"
    by (cases "rollbackMigration e st (migration r)")
  show ?case
  proof (cases x)
    case (Inl msg)
    with x Cons.prems
    have "done' = done" "errs' = [(migration r, msg)]" "st' = st1" by simp_all
    with rollbackMigration_Inl[OF x[unfolded Inl]] show ?thesis by simp
  next
    case (Inr u)
    with x Cons.prems
    have "rollbackLoop e rs (done @ [migration r]) st1 = (done', errs', st')" by simp
    from Cons.IH[OF this] rollbackMigration_Inr[OF x[unfolded Inr]] show ?thesis by simp
  qed
qed



lemma rollback_result:
  assumes "read_mode e = Resolves" and "rollback e st (Some b) = (res, st')"
  shows "r_done res = takeWhile (\<lambda>n. \<not> rollback_fails e n) (rollback_candidates st b) \<and>
         map fst (r_errors res) = take 1 (dropWhile (\<lambda>n. \<not> rollback_fails e n) (rollback_candidates st b)) \<and>
         trace st' = trace st @ concat (map (rollback_events e)
           (takeWhile (\<lambda>n. \<not> rollback_fails e n) (rollback_candidates st b) @
            take 1 (dropWhile (\<lambda>n. \<not> rollback_fails e n) (rollback_candidates st b))))"
proof -
  let ?rows = "order_rows MigrationDesc (filter (\<lambda>r. batch r = b) (ledger st))"
  have rd: "orm_read e st (Some b) MigrationDesc = Success ?rows"
    using assms(1) by (simp add: orm_read_def)
  obtain d er s1 where l: "rollbackLoop e ?rows [] st = (d, er, s1)"
    by (cases "rollbackLoop e ?rows [] st") auto
  with rd assms(2) have "r_done res = d" "r_errors res = er" "st' = s1"
    by (auto simp: rollback_def rollbackRows_def)
  with rollbackLoop_result[OF l] show ?thesis by (simp add: rollback_candidates_def)
qed












subsection \<open>migrate\<close>

text \<open>
  C3 fails on the code where the ledger insert fails without raising. \<open>_executeMigration\<close>
  awaits \<open>orm.create\<close> and does not look at the reply. With two pending units and an
  \<open>orm.create\<close> that resolves with a failure reply for \<open>001_a.js\<close>, \<open>migrate()\<close> reports
  both units as executed and successful, applies \<open>002_b.js\<close> after the failed insert, and
  leaves \<open>001_a.js\<close>, whose forward transform has run, without a ledger row.
\<close>

theorem C3_insert_failure_not_noticed:
  "migrate failing_insert_env empty_state =
     (\<lparr> m_success = True, m_message = Some ''Executed 2 migrations'',
        m_executed = [''001_a.js'', ''002_b.js''], m_batch = Some 1, m_errors = [],
        m_error = None \<rparr>,
      \<lparr> ledger = [\<lparr> migration = ''002_b.js'', batch = 1, executed_at = 0 \<rparr>],
        trace = [CallUp ''001_a.js'', CallCreate ''001_a.js'' 1,
                 CallUp ''002_b.js'', CallCreate ''002_b.js'' 1] \<rparr>) \<and>
   create_mode failing_insert_env ''001_a.js'' = ResolvesFailure"
  by code_simp

subsection \<open>migrate when every failed insert raises\<close>

lemma executeMigration_fst:
  "fst (executeMigration e st name b) = fst (executeMigration e st0 name b0)"
  by (auto simp: executeMigration_def orm_create_def Let_def
      split: sum.splits option.splits outcome.splits orm_mode.splits)

lemma executeMigration_trace:
  "trace (snd (executeMigration e st name b)) = trace st @ apply_events e b name"
  by (auto simp: apply_events_def executeMigration_def orm_create_def Let_def
      split: sum.splits option.splits outcome.splits orm_mode.splits)

lemma executeMigration_ledger_Inl:
  "executeMigration e st name b = (Inl msg, st') \<Longrightarrow> ledger st' = ledger st"
  by (auto simp: executeMigration_def orm_create_def Let_def
      split: sum.splits option.splits outcome.splits orm_mode.splits)

lemma executeMigration_ledger_Inr:
  "executeMigration e st name b = (Inr u, st') \<Longrightarrow> create_mode e name \<noteq> ResolvesFailure \<Longrightarrow>
   ledger st' = ledger st @ [ledger_row e b name] \<and> apply_events e b name = [CallUp name, CallCreate name b]"
  by (auto simp: executeMigration_def orm_create_def Let_def ledger_row_def apply_events_def
      split: sum.splits option.splits outcome.splits orm_mode.splits)

lemma executeMigration_Inl:
  assumes "executeMigration e st name b = (Inl msg, st')"
  shows "apply_fails e name \<and> trace st' = trace st @ apply_events e b name \<and> ledger st' = ledger st"
proof -
  have "fst (executeMigration e \<lparr> ledger = [], trace = [] \<rparr> name 0) = Inl msg"
    using executeMigration_fst[of e "\<lparr> ledger = [], trace = [] \<rparr>" name 0 st b] assms by simp
  then have "apply_fails e name" by (simp add: apply_fails_def)
  moreover have "trace st' = trace st @ apply_events e b name"
    using executeMigration_trace[of e st name b] assms by simp
  ultimately show ?thesis using executeMigration_ledger_Inl[OF assms] by simp
qed

lemma executeMigration_Inr:
  assumes "executeMigration e st name b = (Inr u, st')" and "create_mode e name \<noteq> ResolvesFailure"
  shows "\<not> apply_fails e name \<and> trace st' = trace st @ apply_events e b name \<and>
         ledger st' = ledger st @ [ledger_row e b name] \<and>
         apply_events e b name = [CallUp name, CallCreate name b]"
proof -
  have "fst (executeMigration e \<lparr> ledger = [], trace = [] \<rparr> name 0) = Inr u"
    using executeMigration_fst[of e "\<lparr> ledger = [], trace = [] \<rparr>" name 0 st b] assms by simp
  then have "\<not> apply_fails e name" by (simp add: apply_fails_def)
  moreover have "trace st' = trace st @ apply_events e b name"
    using executeMigration_trace[of e st name b] assms by simp
  ultimately show ?thesis using executeMigration_ledger_Inr[OF assms] by simp
qed

lemma migrateLoop_result:
  "migrateLoop e b ms ex st = (ex', errs, st') \<Longrightarrow>
   list_all (\<lambda>n. create_mode e n \<noteq> ResolvesFailure) ms \<Longrightarrow>
   ex' = ex @ takeWhile (\<lambda>n. \<not> apply_fails e n) ms \<and>
   map fst errs = take 1 (dropWhile (\<lambda>n. \<not> apply_fails e n) ms) \<and>
   trace st' = trace st @ concat (map (apply_events e b)
     (takeWhile (\<lambda>n. \<not> apply_fails e n) ms @ take 1 (dropWhile (\<lambda>n. \<not> apply_fails e n) ms))) \<and>
   ledger st' = ledger st @ map (ledger_row e b) (takeWhile (\<lambda>n. \<not> apply_fails e n) ms) \<and>
   list_all (\<lambda>n. apply_events e b n = [CallUp n, CallCreate n b]) (takeWhile (\<lambda>n. \<not> apply_fails e n) ms)"
proof (induction ms arbitrary: ex st)
  case Nil
  then show ?case by simp
next
  case (Cons m ms)
  obtain x st1 where x: "executeMigration e st m b = (x, st1)"
    by (cases "executeMigration e st m b")
  from Cons.prems(2) have cm: "create_mode e m \<noteq> ResolvesFailure"
    and cms: "list_all (\<lambda>n. create_mode e n \<noteq> ResolvesFailure) ms" by simp_all
  show ?case
  proof (cases x)
    case (Inl msg)
    with x Cons.prems(1)
    have "ex' = ex" "errs = [(m, msg)]" "st' = st1" by simp_all
    with executeMigration_Inl[OF x[unfolded Inl]] show ?thesis by simp
  next
    case (Inr u)
    with x Cons.prems(1)
    have "migrateLoop e b ms (ex @ [m]) st1 = (ex', errs, st')" by simp
    from Cons.IH[OF this cms] executeMigration_Inr[OF x[unfolded Inr] cm] show ?thesis by simp
  qed
qed


lemma filter_not_in_takeWhile:
  "distinct xs \<Longrightarrow> filter (\<lambda>x. x \<notin> set (takeWhile p xs)) xs = dropWhile p xs"
proof -
  assume d: "distinct xs"
  have split: "xs = takeWhile p xs @ dropWhile p xs" by simp
  from d have dd: "distinct (takeWhile p xs @ dropWhile p xs)" by simp
  then have disj: "set (takeWhile p xs) \<inter> set (dropWhile p xs) = {}" by (simp only: distinct_append)
  have a: "filter (\<lambda>x. x \<notin> set (takeWhile p xs)) (takeWhile p xs) = []"
    by (simp add: filter_empty_conv)
  have b: "filter (\<lambda>x. x \<notin> set (takeWhile p xs)) (dropWhile p xs) = dropWhile p xs"
    using disj by (auto simp: filter_id_conv)
  have "filter (\<lambda>x. x \<notin> set (takeWhile p xs)) xs =
        filter (\<lambda>x. x \<notin> set (takeWhile p xs)) (takeWhile p xs @ dropWhile p xs)"
    by simp
  also have "\<dots> = dropWhile p xs" using a b by (simp only: filter_append append_Nil)
  finally show ?thesis .
qed

lemma getPendingMigrations_pending:
  "readdir e = Inr files \<Longrightarrow> read_mode e = Resolves \<Longrightarrow>
   getPendingMigrations e st = Inr (pending_units files st)"
  by (simp add: getPendingMigrations_def orm_read_def order_rows_def pending_units_def Let_def)

lemma pending_units_sorted:
  "distinct files \<Longrightarrow> sorted_wrt (<) (pending_units files st) \<and> distinct (pending_units files st)"
  by (simp add: pending_units_def strict_sorted_iff sorted_wrt_filter)

lemma pending_units_subset: "set (pending_units files st) \<subseteq> set files"
  by (auto simp: pending_units_def)

lemma pending_units_after:
  assumes "distinct files"
    and "ledger st' = ledger st @ map (ledger_row e b) (takeWhile p (pending_units files st))"
  shows "pending_units files st' = dropWhile p (pending_units files st)"
proof -
  let ?P = "pending_units files st"
  let ?mf = "sort (filter (\<lambda>f. endsWith f ''.js'') files)"
  have m: "migration ` set (ledger st') = migration ` set (ledger st) \<union> set (takeWhile p ?P)"
    using assms(2) by (auto simp: ledger_row_def image_Un image_image)
  have "pending_units files st' =
        filter (\<lambda>f. f \<notin> set (takeWhile p ?P)) (filter (\<lambda>f. f \<notin> migration ` set (ledger st)) ?mf)"
    unfolding pending_units_def[of files st'] m by (simp add: conj_commute)
  also have "\<dots> = filter (\<lambda>f. f \<notin> set (takeWhile p ?P)) ?P" by (simp add: pending_units_def)
  also have "\<dots> = dropWhile p ?P"
    using pending_units_sorted[OF assms(1), of st] by (simp add: filter_not_in_takeWhile)
  finally show ?thesis .
qed


text \<open>
  What \<open>migrate()\<close> does when the directory and the ledger can be read and no ledger
  insert fails silently (\<open>orm.create\<close> either carries the insert out or rejects): the
  pending units are the discovered \<open>.js\<close> files minus the ledger's, in strictly ascending
  order; the units applied are those before the first one whose \<open>_executeMigration\<close>
  raises, each by a call of its forward transform followed by the insert of its ledger
  row under the batch number computed at the start; the failing unit is the only entry of
  \<open>errors\<close>; no call is made for a later unit; and the units from the failing one on are
  what is pending afterwards.
\<close>

theorem migrate_applies_pending_in_order:
  assumes "readdir e = Inr files" and "distinct files" and "read_mode e = Resolves"
    and "getNextBatchNumber e st = Inr b"
    and "list_all (\<lambda>n. create_mode e n \<noteq> ResolvesFailure) files"
  shows "sorted_wrt (<) (pending_units files st) \<and>
    (case migrate e st of (res, st') \<Rightarrow>
       m_executed res = takeWhile (\<lambda>n. \<not> apply_fails e n) (pending_units files st) \<and>
       map fst (m_errors res) = take 1 (dropWhile (\<lambda>n. \<not> apply_fails e n) (pending_units files st)) \<and>
       trace st' = trace st @ concat (map (apply_events e b)
         (takeWhile (\<lambda>n. \<not> apply_fails e n) (pending_units files st) @
          take 1 (dropWhile (\<lambda>n. \<not> apply_fails e n) (pending_units files st)))) \<and>
       list_all (\<lambda>n. apply_events e b n = [CallUp n, CallCreate n b])
         (takeWhile (\<lambda>n. \<not> apply_fails e n) (pending_units files st)) \<and>
       ledger st' = ledger st @
         map (ledger_row e b) (takeWhile (\<lambda>n. \<not> apply_fails e n) (pending_units files st)) \<and>
       getPendingMigrations e st' =
         Inr (dropWhile (\<lambda>n. \<not> apply_fails e n) (pending_units files st)))"
proof -
  let ?P = "pending_units files st"
  let ?ok = "\<lambda>n. \<not> apply_fails e n"
  have gp: "getPendingMigrations e st = Inr ?P"
    by (rule getPendingMigrations_pending[OF assms(1) assms(3)])
  have srt: "sorted_wrt (<) ?P" using pending_units_sorted[OF assms(2)] by simp
  obtain res st' where m: "migrate e st = (res, st')" by (cases "migrate e st")
  have main: "m_executed res = takeWhile ?ok ?P \<and>
       map fst (m_errors res) = take 1 (dropWhile ?ok ?P) \<and>
       trace st' = trace st @ concat (map (apply_events e b) (takeWhile ?ok ?P @ take 1 (dropWhile ?ok ?P))) \<and>
       list_all (\<lambda>n. apply_events e b n = [CallUp n, CallCreate n b]) (takeWhile ?ok ?P) \<and>
       ledger st' = ledger st @ map (ledger_row e b) (takeWhile ?ok ?P)"
  proof (cases "?P = []")
    case True
    with gp m show ?thesis by (auto simp: migrate_def)
  next
    case False
    obtain ex errs s1 where l: "migrateLoop e b ?P [] st = (ex, errs, s1)"
      by (cases "migrateLoop e b ?P [] st") auto
    have cm: "list_all (\<lambda>n. create_mode e n \<noteq> ResolvesFailure) ?P"
      using assms(5) pending_units_subset[of files st] by (auto simp: list_all_iff)
    from gp False assms(4) l m have "m_executed res = ex" "m_errors res = errs" "st' = s1"
      by (auto simp: migrate_def)
    with migrateLoop_result[OF l cm] show ?thesis by simp
  qed
  then have "ledger st' = ledger st @ map (ledger_row e b) (takeWhile ?ok ?P)" by simp
  from pending_units_after[OF assms(2) this]
  have "getPendingMigrations e st' = Inr (dropWhile ?ok ?P)"
    using getPendingMigrations_pending[OF assms(1) assms(3), of st'] by simp
  with main srt m show ?thesis by simp
qed

lemma sample_files: "readdir sample_env = Inr [''002_b.js'', ''003_c.js'', ''001_a.js'', ''README.md'']"
  by (simp add: sample_env_def)

lemma sample_files_distinct: "distinct [''002_b.js'', ''003_c.js'', ''001_a.js'', ''README.md'']"
  by simp

lemma sample_read_mode: "read_mode sample_env = Resolves"
  by (simp add: sample_env_def)

lemma sample_next_batch: "getNextBatchNumber sample_env one_applied_state = Inr 2"
  by code_simp

lemma sample_creates:
  "list_all (\<lambda>n. create_mode sample_env n \<noteq> ResolvesFailure)
     [''002_b.js'', ''003_c.js'', ''001_a.js'', ''README.md'']"
  by (simp add: sample_env_def)

lemma sample_migrate_values:
  "pending_units [''002_b.js'', ''003_c.js'', ''001_a.js'', ''README.md''] one_applied_state =
     [''002_b.js'', ''003_c.js''] \<and>
   \<not> apply_fails sample_env ''002_b.js'' \<and> \<not> apply_fails sample_env ''003_c.js'' \<and>
   ledger one_applied_state = [\<lparr> migration = ''001_a.js'', batch = 1, executed_at = 0 \<rparr>] \<and>
   ledger_row sample_env 2 ''002_b.js'' = \<lparr> migration = ''002_b.js'', batch = 2, executed_at = 0 \<rparr> \<and>
   ledger_row sample_env 2 ''003_c.js'' = \<lparr> migration = ''003_c.js'', batch = 2, executed_at = 0 \<rparr>"
  by code_simp


text \<open>On the sample collaborators, with \<open>001_a.js\<close> already applied.\<close>

theorem migrate_applies_pending_in_order_witness:
  "pending_units [''002_b.js'', ''003_c.js'', ''001_a.js'', ''README.md''] one_applied_state =
     [''002_b.js'', ''003_c.js''] \<and>
   (case migrate sample_env one_applied_state of (res, st') \<Rightarrow>
      m_executed res = [''002_b.js'', ''003_c.js''] \<and>
      m_errors res = [] \<and>
      ledger st' = [\<lparr> migration = ''001_a.js'', batch = 1, executed_at = 0 \<rparr>,
                    \<lparr> migration = ''002_b.js'', batch = 2, executed_at = 0 \<rparr>,
                    \<lparr> migration = ''003_c.js'', batch = 2, executed_at = 0 \<rparr>] \<and>
      getPendingMigrations sample_env st' = Inr [])"
  using migrate_applies_pending_in_order[OF sample_files sample_files_distinct sample_read_mode
      sample_next_batch sample_creates]
    sample_migrate_values
  by (simp split: prod.splits)


section \<open>The scenarios of the specification, run on the model\<close>

text \<open>Scenario A: a select with one where condition, an order and a limit, under the
  unnamed-marker and the dollar-marker dialect.\<close>

theorem scenario_A:
  "toSQL (chain [Database ''mysql'', Table ''users'', Select (Inl [''id'', ''name'']),
       Where3 ''age'' ''>='' (VNum 18), OrderBy ''name'' ''ASC'', Limit 10])
     = Inr \<lparr> sql = ''SELECT id, name FROM users WHERE age >= ? ORDER BY name ASC LIMIT 10'',
              sql_params = [VNum 18] \<rparr> \<and>
   toSQL (chain [Database ''postgresql'', Table ''users'', Select (Inl [''id'', ''name'']),
       Where3 ''age'' ''>='' (VNum 18), OrderBy ''name'' ''ASC'', Limit 10])
     = Inr \<lparr> sql = ''SELECT id, name FROM users WHERE age >= $1 ORDER BY name ASC LIMIT 10'',
              sql_params = [VNum 18] \<rparr>"
  by code_simp


text \<open>Scenarios C and D: two units on an empty ledger are applied in batch 1; a
  \<open>rollback()\<close> on the resulting ledger runs the backward transforms in descending order and
  deletes both rows, after which both units are pending again.\<close>

theorem scenario_C_D:
  "migrate scenario_env empty_state =
     (\<lparr> m_success = True, m_message = Some ''Executed 2 migrations'',
        m_executed = [''001_a.js'', ''002_b.js''], m_batch = Some 1, m_errors = [],
        m_error = None \<rparr>,
      \<lparr> ledger = [\<lparr> migration = ''001_a.js'', batch = 1, executed_at = 0 \<rparr>,
                  \<lparr> migration = ''002_b.js'', batch = 1, executed_at = 0 \<rparr>],
        trace = [CallUp ''001_a.js'', CallCreate ''001_a.js'' 1,
                 CallUp ''002_b.js'', CallCreate ''002_b.js'' 1] \<rparr>) \<and>
   rollback scenario_env
     \<lparr> ledger = [\<lparr> migration = ''001_a.js'', batch = 1, executed_at = 0 \<rparr>,
                 \<lparr> migration = ''002_b.js'', batch = 1, executed_at = 0 \<rparr>], trace = [] \<rparr> None =
     (\<lparr> r_success = True, r_message = Some ''Rolled back 2 migrations'',
        r_done = [''002_b.js'', ''001_a.js''], r_errors = [], r_error = None \<rparr>,
      \<lparr> ledger = [],
        trace = [CallDown ''002_b.js'', CallDelete ''002_b.js'',
                 CallDown ''001_a.js'', CallDelete ''001_a.js''] \<rparr>) \<and>
   getPendingMigrations scenario_env \<lparr> ledger = [], trace = [] \<rparr> = Inr [''001_a.js'', ''002_b.js'']"
  by code_simp


text \<open>Scenario E: a column present only in the target snapshot is the one added column,
  with its definition attached; every other category is empty.\<close>

theorem scenario_E:
  "compareSchemas stringify
     (Some [(''users'', \<lparr> columns = Some [(''id'', idDef), (''name'', nameDef)], indexes = None \<rparr>)])
     (Some [(''users'', \<lparr> columns = Some [(''id'', idDef), (''name'', nameDef), (''email'', emailDef)],
                           indexes = None \<rparr>)])
   = Inr (no_differences\<lparr> addedColumns := [(''users'', [(''email'', Some emailDef)])] \<rparr>)"
  by (simp add: compareSchemas_def compareTable_def keys_of_def obj_get_def no_differences_def Let_def)


text \<open>The defect behind C1 in general: under postgresql, whatever the payload of an update
  with one plain where condition, the first marker of the SET clause and the marker of
  the WHERE clause are both \<open>$1\<close>.\<close>

lemma join_with_Cons: "\<exists>more. join_with sep (x # xs) = x @ more"
  by (cases xs) simp_all

lemma show_nat_1: "show_nat (Suc 0) = ''1''"
  by code_simp

theorem update_where_numbering_restarts:
  assumes "queryType q = Some UPDATE" and "updateData q = Some ((f, v) # d)"
    and "databaseType q = Some ''postgresql''"
    and "whereConditions q = [c]" and "coperator c \<notin> set special_ops"
  shows "\<exists>more. toSQL q =
           Inr \<lparr> sql = ''UPDATE '' @ render_name (tableName q) @ '' SET '' @ f @ '' = $1'' @ more @
                        '' WHERE '' @ cfield c @ '' '' @ coperator c @ '' $1'',
                  sql_params = v # map snd d @ params q \<rparr>"
proof -
  from assms(1,3) have t: "toSQL q = buildUpdateQuery q" by (simp add: toSQL_def)
  have w: "buildWhereClause q = Inr (cfield c @ '' '' @ coperator c @ '' $1'')"
    using assms(3,4,5)
    by (simp add: buildWhereClause_def Let_def special_ops_def placeholder_def counter_add_def
        show_counter_def show_nat_1)
  have up: "[0..<Suc (length d)] = 0 # [Suc 0..<Suc (length d)]"
    by (rule upt_conv_Cons) simp
  obtain more where m: "join_with '', ''
      (map (\<lambda>(field, index). field @ '' = '' @ placeholder (databaseType q) (Some (index + 1)))
         (zip (map fst ((f, v) # d)) [0..<length (map fst ((f, v) # d))])) = (f @ '' = $1'') @ more"
    using join_with_Cons[of "'', ''" "f @ '' = $1''"] assms(3)
    by (auto simp: up placeholder_def show_counter_def show_nat_1 simp del: upt_Suc)
  show ?thesis
    using t w m assms(2,4)
    by (simp add: buildUpdateQuery_def addWhere_def Let_def del: upt_Suc)
qed

end
